theory Spec2Isabelle
  imports Complex_Main "HOL-Library.Sublist" "HOL-Library.Multiset" "HOL-Library.Log_Nat"
begin

section \<open>JavaScript strings and numbers\<close>

text \<open>
  A string is the list of its UTF-16 code units, and a \<open>char\<close> is a code unit below
  256: the model covers the strings of the Latin-1 range, which contains every string
  the patterns of the schema accept. White space is what \<open>trim\<close>, \<open>parseInt\<close> and the
  class \<open>\s\<close> take as white space in that range, the no-break space included. Lower
  case is taken of the letters A to Z and of the accented capitals from \<open>0xC0\<close> to
  \<open>0xDE\<close>, the multiplication sign \<open>0xD7\<close> apart.
\<close>

definition upper_letters :: string where
  "upper_letters = ''ABCDEFGHIJKLMNOPQRSTUVWXYZ''"

definition lower_letters :: string where
  "lower_letters = ''abcdefghijklmnopqrstuvwxyz''"

definition digits :: string where
  "digits = ''0123456789''"

definition upper_accented :: string where
  "upper_accented =
     [CHR 0xC0, CHR 0xC1, CHR 0xC2, CHR 0xC3, CHR 0xC4, CHR 0xC5, CHR 0xC6, CHR 0xC7,
      CHR 0xC8, CHR 0xC9, CHR 0xCA, CHR 0xCB, CHR 0xCC, CHR 0xCD, CHR 0xCE, CHR 0xCF,
      CHR 0xD0, CHR 0xD1, CHR 0xD2, CHR 0xD3, CHR 0xD4, CHR 0xD5, CHR 0xD6,
      CHR 0xD8, CHR 0xD9, CHR 0xDA, CHR 0xDB, CHR 0xDC, CHR 0xDD, CHR 0xDE]"

definition lower_accented :: string where
  "lower_accented =
     [CHR 0xE0, CHR 0xE1, CHR 0xE2, CHR 0xE3, CHR 0xE4, CHR 0xE5, CHR 0xE6, CHR 0xE7,
      CHR 0xE8, CHR 0xE9, CHR 0xEA, CHR 0xEB, CHR 0xEC, CHR 0xED, CHR 0xEE, CHR 0xEF,
      CHR 0xF0, CHR 0xF1, CHR 0xF2, CHR 0xF3, CHR 0xF4, CHR 0xF5, CHR 0xF6,
      CHR 0xF8, CHR 0xF9, CHR 0xFA, CHR 0xFB, CHR 0xFC, CHR 0xFD, CHR 0xFE]"

definition to_lower_char :: "char \<Rightarrow> char" where
  "to_lower_char c =
     (case map_of (zip (upper_letters @ upper_accented) (lower_letters @ lower_accented)) c of
        Some d \<Rightarrow> d
      | None \<Rightarrow> c)"

definition toLowerCase :: "string \<Rightarrow> string" where
  "toLowerCase s = map to_lower_char s"

definition is_space :: "char \<Rightarrow> bool" where
  "is_space c =
     (c \<in> set [CHR 0x09, CHR 0x0A, CHR 0x0B, CHR 0x0C, CHR 0x0D, CHR '' '', CHR 0xA0])"

definition trim :: "string \<Rightarrow> string" where
  "trim s = rev (dropWhile is_space (rev (dropWhile is_space s)))"

text \<open>
  A number is a double: not a number, a finite value, or an infinity. The finite doubles
  are rationals, and \<open>fl\<close> rounds a rational to the nearest double, a tie to the even
  significand: 53 bits at the exponent of the value, the exponent not below \<open>-1022\<close>,
  and an infinity from \<open>2^1024\<close> on. The sign of zero is not kept.
\<close>

datatype number = NaN | Num rat | PosInf | NegInf

definition round_half_even :: "rat \<Rightarrow> int" where
  "round_half_even q =
     (let f = \<lfloor>q\<rfloor>; d = q - of_int f
      in if d < 1 / 2 then f else if 1 / 2 < d then f + 1 else if even f then f else f + 1)"

text \<open>The exponent of a positive rational: the \<open>e\<close> with \<open>2^e \<le> a < 2^(e+1)\<close>.\<close>

definition exponent :: "rat \<Rightarrow> int" where
  "exponent a = (if 1 \<le> a then bitlen \<lfloor>a\<rfloor> - 1 else - bitlen (\<lceil>1 / a\<rceil> - 1))"

definition fl :: "rat \<Rightarrow> number" where
  "fl x =
     (if x = 0 then Num 0
      else
        (let a = \<bar>x\<bar>;
             e = max (exponent a) (- 1022);
             u = 2 powi (e - 52);
             r = of_int (round_half_even (a / u)) * u
         in if 2 ^ 1024 \<le> r then (if 0 < x then PosInf else NegInf)
            else Num (if 0 < x then r else - r)))"

text \<open>The arithmetic the source uses: each result is the exact result, rounded.\<close>

definition js_minus :: "number \<Rightarrow> number \<Rightarrow> number" where
  "js_minus a b =
     (case (a, b) of
        (Num x, Num y) \<Rightarrow> fl (x - y)
      | (Num x, PosInf) \<Rightarrow> NegInf
      | (Num x, NegInf) \<Rightarrow> PosInf
      | (PosInf, Num y) \<Rightarrow> PosInf
      | (PosInf, NegInf) \<Rightarrow> PosInf
      | (NegInf, Num y) \<Rightarrow> NegInf
      | (NegInf, PosInf) \<Rightarrow> NegInf
      | _ \<Rightarrow> NaN)"

definition js_times :: "number \<Rightarrow> number \<Rightarrow> number" where
  "js_times a b =
     (case (a, b) of
        (Num x, Num y) \<Rightarrow> fl (x * y)
      | (Num x, PosInf) \<Rightarrow> (if x = 0 then NaN else if 0 < x then PosInf else NegInf)
      | (Num x, NegInf) \<Rightarrow> (if x = 0 then NaN else if 0 < x then NegInf else PosInf)
      | (PosInf, Num y) \<Rightarrow> (if y = 0 then NaN else if 0 < y then PosInf else NegInf)
      | (NegInf, Num y) \<Rightarrow> (if y = 0 then NaN else if 0 < y then NegInf else PosInf)
      | (PosInf, PosInf) \<Rightarrow> PosInf
      | (PosInf, NegInf) \<Rightarrow> NegInf
      | (NegInf, PosInf) \<Rightarrow> NegInf
      | (NegInf, NegInf) \<Rightarrow> PosInf
      | _ \<Rightarrow> NaN)"

definition js_divide :: "number \<Rightarrow> number \<Rightarrow> number" where
  "js_divide a b =
     (case (a, b) of
        (Num x, Num y) \<Rightarrow>
          (if y = 0 then (if x = 0 then NaN else if 0 < x then PosInf else NegInf)
           else fl (x / y))
      | (Num x, PosInf) \<Rightarrow> Num 0
      | (Num x, NegInf) \<Rightarrow> Num 0
      | (PosInf, Num y) \<Rightarrow> (if 0 \<le> y then PosInf else NegInf)
      | (NegInf, Num y) \<Rightarrow> (if 0 \<le> y then NegInf else PosInf)
      | _ \<Rightarrow> NaN)"

definition Math_ceil :: "number \<Rightarrow> number" where
  "Math_ceil a = (case a of Num x \<Rightarrow> Num (of_int \<lceil>x\<rceil>) | _ \<Rightarrow> a)"

text \<open>\<open>Math.round\<close> rounds to the nearest integer, a half upwards.\<close>

definition Math_round :: "number \<Rightarrow> number" where
  "Math_round a = (case a of Num x \<Rightarrow> Num (of_int \<lfloor>x + 1 / 2\<rfloor>) | _ \<Rightarrow> a)"

text \<open>
  \<open>parseInt(x)\<close> with no radix: leading white space is skipped, a sign is read, a
  prefix \<open>0x\<close> selects base 16, and the longest run of digits is read; \<open>read_int\<close> gives
  their exact value, or \<open>None\<close> when there is no digit or the argument is absent.
  \<open>parseInt\<close> is the double nearest that value, and \<open>NaN\<close> when there is none.
\<close>

definition digit_of :: "string \<Rightarrow> char \<Rightarrow> int option" where
  "digit_of alphabet c = map_of (zip alphabet (map int [0..<length alphabet])) (to_lower_char c)"

definition read_digits :: "string \<Rightarrow> string \<Rightarrow> int option" where
  "read_digits alphabet s =
     (let ds = takeWhile (\<lambda>c. digit_of alphabet c \<noteq> None) s
      in if ds = [] then None
         else Some (foldl (\<lambda>a c. a * int (length alphabet) + (case digit_of alphabet c of Some d \<Rightarrow> d | None \<Rightarrow> 0)) 0 ds))"

definition read_unsigned :: "string \<Rightarrow> int option" where
  "read_unsigned s =
     (case s of
        c # d # r \<Rightarrow>
          (if c = CHR ''0'' \<and> (d = CHR ''x'' \<or> d = CHR ''X'')
           then read_digits ''0123456789abcdef'' r
           else read_digits digits s)
      | _ \<Rightarrow> read_digits digits s)"

definition read_int :: "string option \<Rightarrow> int option" where
  "read_int x =
     (case x of
        None \<Rightarrow> None
      | Some s \<Rightarrow>
          (case dropWhile is_space s of
             [] \<Rightarrow> None
           | c # r \<Rightarrow>
               (if c = CHR ''-'' then map_option uminus (read_unsigned r)
                else if c = CHR ''+'' then read_unsigned r
                else read_unsigned (c # r))))"

definition parseInt :: "string option \<Rightarrow> number" where
  "parseInt x = (case read_int x of None \<Rightarrow> NaN | Some v \<Rightarrow> fl (of_int v))"

text \<open>\<open>n || d\<close> on numbers: \<open>NaN\<close> and zero are falsy, every other number is kept.\<close>

definition or_default :: "number \<Rightarrow> rat \<Rightarrow> number" where
  "or_default n d =
     (case n of NaN \<Rightarrow> Num d | Num v \<Rightarrow> if v = 0 then Num d else Num v | _ \<Rightarrow> n)"

section \<open>Regular expressions of the schema\<close>

text \<open>
  The \<open>match\<close> validators test a value against a JavaScript regular expression anchored
  at both ends. The expressions are represented by their syntax tree and tested with
  derivatives.
\<close>

datatype rx = Nothing | Empty | Sym "char \<Rightarrow> bool" | Alt rx rx | Seq rx rx | Star rx

fun nullable :: "rx \<Rightarrow> bool" where
  "nullable Nothing = False"
| "nullable Empty = True"
| "nullable (Sym p) = False"
| "nullable (Alt r s) = (nullable r \<or> nullable s)"
| "nullable (Seq r s) = (nullable r \<and> nullable s)"
| "nullable (Star r) = True"

fun deriv :: "char \<Rightarrow> rx \<Rightarrow> rx" where
  "deriv c Nothing = Nothing"
| "deriv c Empty = Nothing"
| "deriv c (Sym p) = (if p c then Empty else Nothing)"
| "deriv c (Alt r s) = Alt (deriv c r) (deriv c s)"
| "deriv c (Seq r s) =
     (if nullable r then Alt (Seq (deriv c r) s) (deriv c s) else Seq (deriv c r) s)"
| "deriv c (Star r) = Seq (deriv c r) (Star r)"

definition rx_test :: "rx \<Rightarrow> string \<Rightarrow> bool" where
  "rx_test r s = nullable (foldl (\<lambda>q c. deriv c q) r s)"

definition Plus :: "rx \<Rightarrow> rx" where
  "Plus r = Seq r (Star r)"

definition Opt :: "rx \<Rightarrow> rx" where
  "Opt r = Alt r Empty"

definition Lit :: "char \<Rightarrow> rx" where
  "Lit c = Sym (\<lambda>d. d = c)"

definition word_char :: "char \<Rightarrow> bool" where
  "word_char c = (c \<in> set (upper_letters @ lower_letters @ digits @ ''_''))"

text \<open>\<^verbatim>\<open>/^\w+([.-]?\w+)*@\w+([.-]?\w+)*(\.\w{2,3})+$/\<close>\<close>

definition email_pattern :: rx where
  "email_pattern =
     Seq (Plus (Sym word_char))
    (Seq (Star (Seq (Opt (Sym (\<lambda>c. c \<in> set ''.-''))) (Plus (Sym word_char))))
    (Seq (Lit CHR ''@'')
    (Seq (Plus (Sym word_char))
    (Seq (Star (Seq (Opt (Sym (\<lambda>c. c \<in> set ''.-''))) (Plus (Sym word_char))))
         (Plus (Seq (Lit CHR ''.'')
               (Seq (Sym word_char) (Seq (Sym word_char) (Opt (Sym word_char))))))))))"

text \<open>\<^verbatim>\<open>/^[0-9-+\s()]+$/\<close>\<close>

definition phone_pattern :: rx where
  "phone_pattern = Plus (Sym (\<lambda>c. c \<in> set (digits @ ''-+()'') \<or> is_space c))"

section \<open>The user model (models/User.js)\<close>

text \<open>
  A stored document. \<open>uid\<close> is the field \<open>_id\<close>, an ObjectId written as 24 lower-case
  hexadecimal digits. Dates are milliseconds since the epoch. Optional fields that were
  never set are \<open>None\<close>.
\<close>

type_synonym objectid = string

record user =
  uid :: objectid
  name :: string
  email :: string
  age :: "rat option"
  city :: "string option"
  phone :: "string option"
  createdAt :: int
  updatedAt :: int

text \<open>
  The five fields a handler reads from \<open>req.body\<close>. A field that is absent from the
  body is \<open>undefined\<close> in the source and \<open>None\<close> here. The model covers bodies whose
  fields have the JSON type the schema declares (strings, and a number for \<open>age\<close>).
\<close>

record body =
  body_name :: "string option"
  body_email :: "string option"
  body_age :: "rat option"
  body_city :: "string option"
  body_phone :: "string option"

text \<open>The setters of the schema: \<open>trim\<close> on every string, \<open>lowercase\<close> on the e-mail.\<close>

definition cast_email :: "string \<Rightarrow> string" where
  "cast_email e = trim (toLowerCase e)"

definition cast_body :: "body \<Rightarrow> body" where
  "cast_body b =
     \<lparr> body_name = map_option trim (body_name b),
       body_email = map_option cast_email (body_email b),
       body_age = body_age b,
       body_city = map_option trim (body_city b),
       body_phone = map_option trim (body_phone b) \<rparr>"

text \<open>
  The validators of each path, in the order the schema declares them; the first one
  that fails gives the path's message. Each function takes the value after the setters.
  \<open>required\<close> rejects an absent value and the empty string; the length, range and
  \<open>match\<close> validators accept an absent value, and \<open>match\<close> accepts the empty string.
\<close>

definition validate_name :: "string option \<Rightarrow> (string \<times> string) list" where
  "validate_name v =
     (case v of
        None \<Rightarrow> [(''name'', ''Name is required'')]
      | Some s \<Rightarrow>
          if s = [] then [(''name'', ''Name is required'')]
          else if length s < 2 then [(''name'', ''Name must be at least 2 characters long'')]
          else if length s > 50 then [(''name'', ''Name cannot exceed 50 characters'')]
          else [])"

definition validate_email :: "string option \<Rightarrow> (string \<times> string) list" where
  "validate_email v =
     (case v of
        None \<Rightarrow> [(''email'', ''Email is required'')]
      | Some s \<Rightarrow>
          if s = [] then [(''email'', ''Email is required'')]
          else if \<not> rx_test email_pattern s then [(''email'', ''Please enter a valid email'')]
          else [])"

definition validate_age :: "rat option \<Rightarrow> (string \<times> string) list" where
  "validate_age v =
     (case v of
        None \<Rightarrow> []
      | Some a \<Rightarrow>
          if a < 1 then [(''age'', ''Age must be at least 1'')]
          else if a > 150 then [(''age'', ''Age cannot exceed 150'')]
          else [])"

definition validate_city :: "string option \<Rightarrow> (string \<times> string) list" where
  "validate_city v =
     (case v of
        None \<Rightarrow> []
      | Some s \<Rightarrow>
          if length s > 100 then [(''city'', ''City name cannot exceed 100 characters'')]
          else [])"

definition validate_phone :: "string option \<Rightarrow> (string \<times> string) list" where
  "validate_phone v =
     (case v of
        None \<Rightarrow> []
      | Some s \<Rightarrow>
          if s \<noteq> [] \<and> \<not> rx_test phone_pattern s
          then [(''phone'', ''Please enter a valid phone number'')]
          else [])"

text \<open>Validation of a whole document, as \<open>save()\<close> runs it.\<close>

definition validate :: "body \<Rightarrow> (string \<times> string) list" where
  "validate d =
     validate_name (body_name d) @ validate_email (body_email d) @ validate_age (body_age d)
       @ validate_city (body_city d) @ validate_phone (body_phone d)"

text \<open>
  Update validators (\<open>runValidators: true\<close>) run on the paths the update sets only: a
  field that is absent from the body is not part of the update. Their messages come
  with the last path of the schema first.
\<close>

definition validate_update :: "body \<Rightarrow> (string \<times> string) list" where
  "validate_update d =
     validate_phone (body_phone d) @ validate_city (body_city d) @ validate_age (body_age d)
       @ (if body_email d = None then [] else validate_email (body_email d))
       @ (if body_name d = None then [] else validate_name (body_name d))"

section \<open>The collection\<close>

text \<open>
  The collection is the list of its documents in insertion order. The operations of the
  Mongoose model that the routes call (\<open>findOne\<close>, \<open>save\<close>, \<open>findById\<close>,
  \<open>findByIdAndUpdate\<close>, \<open>findByIdAndDelete\<close>, \<open>find\<close>) are library code; each is
  modelled below by what it does to the collection, for a store that answers: filters
  and updates are cast through the schema, validation runs before a write, and the
  unique indexes on \<open>_id\<close> and \<open>email\<close> refuse a duplicate.

  What a handler can send back as \<open>error\<close>: the two fixed messages of routes/users.js
  (\<open>User with this email already exists\<close>, \<open>User not found\<close>), and the
  \<open>error.message\<close> of what the model layer throws.
\<close>

type_synonym store = "user list"

datatype error =
    DuplicateEmail
  | NotFound
  | ValidationError "(string \<times> string) list"
  | CastError string
  | DuplicateKey string
  | StoreError string

text \<open>
  A path parameter is cast to an ObjectId: 24 hexadecimal digits, read without regard
  to letter case. Anything else is a cast error. (Some releases of the library also
  take any string of 12 characters; the model does not.)
\<close>

definition castObjectId :: "string \<Rightarrow> objectid option" where
  "castObjectId s =
     (if length s = 24 \<and> list_all (\<lambda>c. to_lower_char c \<in> set ''0123456789abcdef'') s
      then Some (toLowerCase s) else None)"

text \<open>\<open>User.findOne({ email })\<close>: the filter value goes through the setters of the path.\<close>

definition findOne_email :: "store \<Rightarrow> string option \<Rightarrow> user option" where
  "findOne_email db e =
     (case e of
        None \<Rightarrow> None
      | Some s \<Rightarrow> find (\<lambda>u. email u = cast_email s) db)"

text \<open>\<open>User.findOne({ email, _id: { $ne: id } })\<close>\<close>

definition findOne_email_ne :: "store \<Rightarrow> string \<Rightarrow> string \<Rightarrow> error + user option" where
  "findOne_email_ne db s idp =
     (case castObjectId idp of
        None \<Rightarrow> Inl (CastError ''_id'')
      | Some i \<Rightarrow> Inr (find (\<lambda>u. email u = cast_email s \<and> uid u \<noteq> i) db))"

text \<open>\<open>User.findById(id)\<close>\<close>

definition findById :: "store \<Rightarrow> string \<Rightarrow> error + user option" where
  "findById db idp =
     (case castObjectId idp of
        None \<Rightarrow> Inl (CastError ''_id'')
      | Some i \<Rightarrow> Inr (find (\<lambda>u. uid u = i) db))"

text \<open>
  \<open>new User({...}).save()\<close>: setters, validation, then the insert, which the unique
  indexes on \<open>_id\<close> and \<open>email\<close> can refuse. \<open>timestamps: true\<close> sets both dates to the
  time of the save. \<open>newid\<close> is the ObjectId the constructor generated.
\<close>

definition save :: "store \<Rightarrow> objectid \<Rightarrow> int \<Rightarrow> body \<Rightarrow> error + (user \<times> store)" where
  "save db newid now b =
     (let d = cast_body b in
      case (validate d, body_name d, body_email d) of
        ([], Some n, Some e) \<Rightarrow>
          (let u = \<lparr> uid = newid, name = n, email = e, age = body_age d, city = body_city d,
                     phone = body_phone d, createdAt = now, updatedAt = now \<rparr>
           in if list_ex (\<lambda>v. uid v = newid) db then Inl (DuplicateKey ''_id'')
              else if list_ex (\<lambda>v. email v = e) db then Inl (DuplicateKey ''email'')
              else Inr (u, db @ [u]))
      | (errs, _, _) \<Rightarrow> Inl (ValidationError errs))"

text \<open>
  The \<open>$set\<close> of an update: each field the body carries replaces the stored one, and the
  timestamps plugin sets \<open>updatedAt\<close>. \<open>_id\<close> and \<open>createdAt\<close> are not part of it.
\<close>

definition apply_update :: "body \<Rightarrow> int \<Rightarrow> user \<Rightarrow> user" where
  "apply_update d now u =
     u \<lparr> name := (case body_name d of Some n \<Rightarrow> n | None \<Rightarrow> name u),
         email := (case body_email d of Some e \<Rightarrow> e | None \<Rightarrow> email u),
         age := (case body_age d of Some a \<Rightarrow> Some a | None \<Rightarrow> age u),
         city := (case body_city d of Some c \<Rightarrow> Some c | None \<Rightarrow> city u),
         phone := (case body_phone d of Some p \<Rightarrow> Some p | None \<Rightarrow> phone u),
         updatedAt := now \<rparr>"

fun index_of :: "('a \<Rightarrow> bool) \<Rightarrow> 'a list \<Rightarrow> nat option" where
  "index_of P [] = None"
| "index_of P (x # xs) = (if P x then Some 0 else map_option Suc (index_of P xs))"

text \<open>
  \<open>User.findByIdAndUpdate(id, {...}, { new: true, runValidators: true })\<close>: the id and
  the update are cast, the update validators run, and the first document with that id
  is rewritten in place. The result is the document after the update, or \<open>null\<close>.
\<close>

definition findByIdAndUpdate ::
  "store \<Rightarrow> int \<Rightarrow> string \<Rightarrow> body \<Rightarrow> error + (user option \<times> store)" where
  "findByIdAndUpdate db now idp b =
     (case castObjectId idp of
        None \<Rightarrow> Inl (CastError ''_id'')
      | Some i \<Rightarrow>
          (let d = cast_body b in
           if validate_update d \<noteq> [] then Inl (ValidationError (validate_update d))
           else
             (case index_of (\<lambda>u. uid u = i) db of
                None \<Rightarrow> Inr (None, db)
              | Some k \<Rightarrow>
                  (let u = apply_update d now (db ! k)
                   in if list_ex (\<lambda>v. uid v \<noteq> i \<and> email v = email u) db
                      then Inl (DuplicateKey ''email'')
                      else Inr (Some u, db[k := u])))))"

text \<open>\<open>User.findByIdAndDelete(id)\<close>: removes the first document with that id.\<close>

definition findByIdAndDelete :: "store \<Rightarrow> string \<Rightarrow> error + (user option \<times> store)" where
  "findByIdAndDelete db idp =
     (case castObjectId idp of
        None \<Rightarrow> Inl (CastError ''_id'')
      | Some i \<Rightarrow>
          (case index_of (\<lambda>u. uid u = i) db of
             None \<Rightarrow> Inr (None, db)
           | Some k \<Rightarrow> Inr (Some (db ! k), take k db @ drop (Suc k) db)))"

text \<open>
  \<open>.sort({ createdAt: -1 })\<close>: newest first. Among documents of equal date the store
  promises no order, and none that is the same from one query to the next. So each
  query has the order the store uses in it as a parameter, an \<open>ordering\<close>: a function
  that arranges any list of documents newest first. \<open>sort_newest\<close>, which keeps the
  insertion order among equal dates, is one such function.
\<close>

type_synonym ordering = "user list \<Rightarrow> user list"




text \<open>
  \<open>User.find().skip(skip).limit(limit).sort({ createdAt: -1 })\<close>: the store sorts, then
  skips, then limits, whatever the order of the calls. A skip and a limit must be whole
  numbers of 64 bits. The store refuses a negative skip, reads a negative limit as its
  absolute value, and takes the limit 0 as no limit.
\<close>

definition as_long :: "number \<Rightarrow> int option" where
  "as_long a =
     (case a of
        Num x \<Rightarrow> if x = of_int \<lfloor>x\<rfloor> \<and> \<bar>x\<bar> < 2 ^ 63 then Some \<lfloor>x\<rfloor> else None
      | _ \<Rightarrow> None)"

definition find_page :: "ordering \<Rightarrow> store \<Rightarrow> number \<Rightarrow> number \<Rightarrow> error + user list" where
  "find_page ord db skip limit =
     (case as_long skip of
        None \<Rightarrow> Inl (StoreError ''skip'')
      | Some s \<Rightarrow>
          (case as_long limit of
             None \<Rightarrow> Inl (StoreError ''limit'')
           | Some l \<Rightarrow>
               if s < 0 then Inl (StoreError ''skip'')
               else if l = 0 then Inr (drop (nat s) (ord db))
               else Inr (take (nat \<bar>l\<bar>) (drop (nat s) (ord db)))))"








section \<open>The user routes (routes/users.js)\<close>

record page =
  users :: "user list"
  currentPage :: number
  totalPages :: number
  totalUsers :: number

datatype payload =
    Error error
  | Message string user
  | Document user
  | Listing page
  | Documents "user list"

datatype 'a response = Response (status: nat) (payload: 'a)

text \<open>
  \<open>router.post("/")\<close>. \<open>newid\<close> is the ObjectId generated for the new document and
  \<open>now\<close> the time of the save. Every error of the \<open>try\<close> block is answered with 400.
\<close>

definition post_users :: "store \<Rightarrow> objectid \<Rightarrow> int \<Rightarrow> body \<Rightarrow> payload response \<times> store" where
  "post_users db newid now b =
     (case findOne_email db (body_email b) of
        Some existingUser \<Rightarrow> (Response 400 (Error DuplicateEmail), db)
      | None \<Rightarrow>
          (case save db newid now b of
             Inl e \<Rightarrow> (Response 400 (Error e), db)
           | Inr (savedUser, db') \<Rightarrow>
               (Response 201 (Message ''User created successfully'' savedUser), db')))"

text \<open>
  \<open>router.get("/")\<close>, with the two query parameters as the request carries them and
  the order \<open>ord\<close> the store uses in this query. \<open>countDocuments\<close> gives the number
  of documents as a double.
\<close>

definition list_params :: "string option \<Rightarrow> string option \<Rightarrow> number \<times> number \<times> number" where
  "list_params page_q limit_q =
     (let page = or_default (parseInt page_q) 1;
          limit = or_default (parseInt limit_q) 10;
          skip = js_times (js_minus page (Num 1)) limit
      in (page, limit, skip))"

definition get_users ::
  "ordering \<Rightarrow> store \<Rightarrow> string option \<Rightarrow> string option \<Rightarrow> payload response" where
  "get_users ord db page_q limit_q =
     (case list_params page_q limit_q of
        (page, limit, skip) \<Rightarrow>
          (case find_page ord db skip limit of
             Inl e \<Rightarrow> Response 500 (Error e)
           | Inr us \<Rightarrow>
               (let total = fl (of_nat (length db))
                in Response 200 (Listing
                     \<lparr> users = us, currentPage = page,
                       totalPages = Math_ceil (js_divide total limit),
                       totalUsers = total \<rparr>))))"

text \<open>\<open>router.get("/:id")\<close>\<close>

definition get_user :: "store \<Rightarrow> string \<Rightarrow> payload response" where
  "get_user db idp =
     (case findById db idp of
        Inl e \<Rightarrow> Response 500 (Error e)
      | Inr None \<Rightarrow> Response 404 (Error NotFound)
      | Inr (Some u) \<Rightarrow> Response 200 (Document u))"

text \<open>
  \<open>router.put("/:id")\<close>. The e-mail check runs when \<open>email\<close> is truthy, that is present
  and not the empty string. Every error of the \<open>try\<close> block is answered with 400.
\<close>

definition put_user :: "store \<Rightarrow> int \<Rightarrow> string \<Rightarrow> body \<Rightarrow> payload response \<times> store" where
  "put_user db now idp b =
     (case (case body_email b of
              None \<Rightarrow> Inr None
            | Some e \<Rightarrow> if e = [] then Inr None else findOne_email_ne db e idp) of
        Inl e \<Rightarrow> (Response 400 (Error e), db)
      | Inr (Some existingUser) \<Rightarrow> (Response 400 (Error DuplicateEmail), db)
      | Inr None \<Rightarrow>
          (case findByIdAndUpdate db now idp b of
             Inl e \<Rightarrow> (Response 400 (Error e), db)
           | Inr (None, db') \<Rightarrow> (Response 404 (Error NotFound), db')
           | Inr (Some u, db') \<Rightarrow> (Response 200 (Message ''User updated successfully'' u), db')))"

text \<open>\<open>router.delete("/:id")\<close>. An error of the \<open>try\<close> block is answered with 500.\<close>

definition delete_user :: "store \<Rightarrow> string \<Rightarrow> payload response \<times> store" where
  "delete_user db idp =
     (case findByIdAndDelete db idp of
        Inl e \<Rightarrow> (Response 500 (Error e), db)
      | Inr (None, db') \<Rightarrow> (Response 404 (Error NotFound), db')
      | Inr (Some u, db') \<Rightarrow> (Response 200 (Message ''User deleted successfully'' u), db'))"


section \<open>Health checks (utils/healthCheck.js)\<close>

text \<open>
  What a check reads from its surroundings. \<open>connection\<close> is \<open>mongoose.connection\<close> as
  one check sees it: \<open>ping\<close> is the outcome of \<open>db.admin().ping()\<close>, either the message
  of the error it rejects with or the milliseconds the round trip took. \<open>process\<close> is
  the Node process: the clock as \<open>toISOString()\<close> prints it, \<open>process.uptime()\<close>,
  the environment variables the module reads, and the figures of \<open>memoryUsage()\<close> and
  \<open>cpuUsage()\<close>.
\<close>

record connection =
  readyState :: nat
  conn_name :: string
  conn_host :: string
  conn_port :: nat
  ping :: "string + nat"

record process =
  clock :: string
  uptime :: rat
  npm_package_version :: "string option"
  NODE_ENV :: "string option"
  PORT :: "string option"
  node_version :: string
  platform :: string
  arch :: string
  pid :: nat
  rss :: nat
  heapTotal :: nat
  heapUsed :: nat
  external :: nat
  cpu_user :: nat
  cpu_system :: nat

text \<open>The module's variables; \<open>startTime\<close> is set once when the module loads.\<close>

record health_state =
  healthCheckCount :: nat
  lastHealthCheck :: "string option"
  startTime :: string

definition initial_health_state :: "string \<Rightarrow> health_state" where
  "initial_health_state t = \<lparr> healthCheckCount = 0, lastHealthCheck = None, startTime = t \<rparr>"

definition incrementHealthCheckCount :: "string \<Rightarrow> health_state \<Rightarrow> health_state" where
  "incrementHealthCheckCount now h =
     h \<lparr> healthCheckCount := healthCheckCount h + 1, lastHealthCheck := Some now \<rparr>"

text \<open>\<open>v || d\<close> on an environment variable: unset and empty are falsy.\<close>

definition env_or :: "string option \<Rightarrow> string \<Rightarrow> string" where
  "env_or v d = (case v of None \<Rightarrow> d | Some s \<Rightarrow> if s = [] then d else s)"

text \<open>A \<open>try\<close> block whose \<open>catch\<close> turns the error message into a result.\<close>

definition try_catch :: "string + 'a \<Rightarrow> (string \<Rightarrow> 'a) \<Rightarrow> 'a" where
  "try_catch block handler = (case block of Inl msg \<Rightarrow> handler msg | Inr v \<Rightarrow> v)"

record basic_health =
  basic_status :: string
  basic_timestamp :: string
  basic_uptime :: rat
  basic_message :: string
  basic_version :: string

definition getBasicHealth :: "process \<Rightarrow> basic_health" where
  "getBasicHealth p =
     \<lparr> basic_status = ''OK'', basic_timestamp = clock p, basic_uptime = uptime p,
       basic_message = ''Server is healthy'',
       basic_version = env_or (npm_package_version p) ''1.0.0'' \<rparr>"

record db_check =
  db_status :: string
  db_state :: "string option"
  db_name :: "string option"
  db_host :: "string option"
  db_port :: "nat option"
  db_responseTime :: "nat option"
  db_error :: "string option"

definition states :: "nat \<Rightarrow> string option" where
  "states = map_of [(0, ''disconnected''), (1, ''connected''), (2, ''connecting''),
                   (3, ''disconnecting'')]"

definition checkDatabase :: "connection \<Rightarrow> db_check" where
  "checkDatabase c =
     try_catch
       (if readyState c = 1 then
          (case ping c of
             Inl msg \<Rightarrow> Inl msg
           | Inr responseTime \<Rightarrow>
               Inr \<lparr> db_status = ''OK'', db_state = states (readyState c),
                     db_name = Some (conn_name c), db_host = Some (conn_host c),
                     db_port = Some (conn_port c), db_responseTime = Some responseTime,
                     db_error = None \<rparr>)
        else
          Inr \<lparr> db_status = ''ERROR'', db_state = states (readyState c), db_name = None,
                db_host = None, db_port = None, db_responseTime = None,
                db_error = Some ''Database is not connected'' \<rparr>)
       (\<lambda>msg. \<lparr> db_status = ''ERROR'', db_state = None, db_name = None, db_host = None,
                 db_port = None, db_responseTime = None, db_error = Some msg \<rparr>)"

text \<open>\<open>Math.round((n / 1024 / 1024) * 100) / 100\<close>, in the arithmetic of doubles.\<close>

definition megabytes :: "nat \<Rightarrow> number" where
  "megabytes n =
     js_divide
       (Math_round
         (js_times (js_divide (js_divide (fl (of_nat n)) (Num 1024)) (Num 1024)) (Num 100)))
       (Num 100)"

record system_info =
  sys_nodeVersion :: string
  sys_platform :: string
  sys_architecture :: string
  sys_uptime :: rat
  sys_pid :: nat
  sys_startTime :: string

record memory_info =
  mem_rss :: number
  mem_heapTotal :: number
  mem_heapUsed :: number
  mem_external :: number
  mem_heapUsedPercentage :: number

record system_metrics =
  metrics_system :: system_info
  metrics_memory :: memory_info
  metrics_cpu :: "nat \<times> nat"

definition getSystemMetrics :: "health_state \<Rightarrow> process \<Rightarrow> system_metrics" where
  "getSystemMetrics h p =
     \<lparr> metrics_system =
         \<lparr> sys_nodeVersion = node_version p, sys_platform = platform p,
           sys_architecture = arch p, sys_uptime = uptime p, sys_pid = pid p,
           sys_startTime = startTime h \<rparr>,
       metrics_memory =
         \<lparr> mem_rss = megabytes (rss p), mem_heapTotal = megabytes (heapTotal p),
           mem_heapUsed = megabytes (heapUsed p), mem_external = megabytes (external p),
           mem_heapUsedPercentage =
             Math_round
               (js_times (js_divide (fl (of_nat (heapUsed p))) (fl (of_nat (heapTotal p))))
                 (Num 100)) \<rparr>,
       metrics_cpu = (cpu_user p, cpu_system p) \<rparr>"

record detailed_health =
  detailed_status :: string
  detailed_timestamp :: string
  detailed_uptime :: rat
  detailed_version :: string
  detailed_environment :: string
  detailed_port :: string
  detailed_healthCheckCount :: nat
  detailed_lastHealthCheck :: "string option"
  check_server :: string
  check_database :: db_check
  check_memory :: "number \<times> number \<times> number"
  check_system :: system_info

definition getDetailedHealth :: "health_state \<Rightarrow> connection \<Rightarrow> process \<Rightarrow> detailed_health" where
  "getDetailedHealth h c p =
     (let dbCheck = checkDatabase c; systemMetrics = getSystemMetrics h p
      in \<lparr> detailed_status = (if db_status dbCheck = ''OK'' then ''OK'' else ''ERROR''),
           detailed_timestamp = clock p, detailed_uptime = uptime p,
           detailed_version = env_or (npm_package_version p) ''1.0.0'',
           detailed_environment = env_or (NODE_ENV p) ''development'',
           detailed_port = env_or (PORT p) ''5000'',
           detailed_healthCheckCount = healthCheckCount h,
           detailed_lastHealthCheck = lastHealthCheck h,
           check_server = ''OK'',
           check_database = dbCheck,
           check_memory =
             (mem_heapUsed (metrics_memory systemMetrics),
              mem_heapTotal (metrics_memory systemMetrics),
              mem_heapUsedPercentage (metrics_memory systemMetrics)),
           check_system = metrics_system systemMetrics \<rparr>)"

record readiness =
  ready_status :: string
  ready_message :: string
  ready_error :: "string option"
  ready_timestamp :: string

definition checkReadiness :: "connection \<Rightarrow> process \<Rightarrow> readiness" where
  "checkReadiness c p =
     try_catch
       (if readyState c = 1 then
          (case ping c of
             Inl msg \<Rightarrow> Inl msg
           | Inr t \<Rightarrow>
               Inr \<lparr> ready_status = ''READY'',
                     ready_message = ''Application is ready to serve traffic'',
                     ready_error = None, ready_timestamp = clock p \<rparr>)
        else
          Inr \<lparr> ready_status = ''NOT_READY'', ready_message = ''Database connection not ready'',
                ready_error = None, ready_timestamp = clock p \<rparr>)
       (\<lambda>msg. \<lparr> ready_status = ''NOT_READY'', ready_message = ''Application not ready'',
                 ready_error = Some msg, ready_timestamp = clock p \<rparr>)"

record liveness =
  alive_status :: string
  alive_message :: string
  alive_timestamp :: string
  alive_uptime :: rat

definition checkLiveness :: "process \<Rightarrow> liveness" where
  "checkLiveness p =
     \<lparr> alive_status = ''ALIVE'', alive_message = ''Application is alive'',
       alive_timestamp = clock p, alive_uptime = uptime p \<rparr>"

section \<open>The server (server.js)\<close>

text \<open>
  A request as the router sees it: the method, the path without its query string, and
  the error the body parsers raise on its body, if they raise one. Routing ignores
  letter case and one trailing slash; \<open>app.use(prefix, ...)\<close> runs for the prefix
  itself and for every path below it.
\<close>

record request =
  req_method :: string
  req_path :: string
  req_body_error :: "string option"

definition route_matches :: "string \<Rightarrow> string \<Rightarrow> bool" where
  "route_matches route p = (toLowerCase p = route \<or> toLowerCase p = route @ ''/'')"

definition mount_matches :: "string \<Rightarrow> string \<Rightarrow> bool" where
  "mount_matches mount p = (toLowerCase p = mount \<or> prefix (mount @ ''/'') (toLowerCase p))"

text \<open>
  \<open>app.use("/health", ...)\<close>, the health check request counter; \<open>now\<close> is the time of the
  request. No other line of the server calls \<open>incrementHealthCheckCount\<close> or writes the
  module's variables, so this is all a request does to them.
\<close>

definition health_counter_middleware :: "string \<times> request \<Rightarrow> health_state \<Rightarrow> health_state" where
  "health_counter_middleware r h =
     (if mount_matches ''/health'' (req_path (snd r)) then incrementHealthCheckCount (fst r) h
      else h)"

text \<open>
  The middleware registered before the counter. \<open>cors()\<close> answers every \<open>OPTIONS\<close>
  request itself and passes the others on. \<open>express.json()\<close> and
  \<open>express.urlencoded()\<close> pass an error on when they cannot read the body, and the
  request then goes to the error handler past every other middleware. The logging
  middleware always passes the request on.
\<close>

definition cors_answers :: "request \<Rightarrow> bool" where
  "cors_answers r = (toLowerCase (req_method r) = ''options'')"

definition reaches_counter :: "request \<Rightarrow> bool" where
  "reaches_counter r = (\<not> cors_answers r \<and> req_body_error r = None)"

definition serve :: "string \<times> request \<Rightarrow> health_state \<Rightarrow> health_state" where
  "serve r h =
     (if cors_answers (snd r) then h
      else if req_body_error (snd r) \<noteq> None then h
      else health_counter_middleware r h)"

definition serve_all :: "health_state \<Rightarrow> (string \<times> request) list \<Rightarrow> health_state" where
  "serve_all h rs = foldl (\<lambda>h r. serve r h) h rs"

text \<open>The requests \<open>app.get("/health", ...)\<close> answers, which is the basic health check.\<close>

definition basic_health_request :: "request \<Rightarrow> bool" where
  "basic_health_request r =
     (req_method r \<in> set [''GET'', ''HEAD''] \<and> req_body_error r = None
      \<and> route_matches ''/health'' (req_path r))"

text \<open>\<open>app.get("/health", ...)\<close>\<close>

definition health_route :: "process \<Rightarrow> basic_health response" where
  "health_route p = Response 200 (getBasicHealth p)"

text \<open>\<open>app.get("/ready", ...)\<close>\<close>

definition ready_route :: "connection \<Rightarrow> process \<Rightarrow> readiness response" where
  "ready_route c p =
     try_catch
       (Inr (let readiness = checkReadiness c p
             in Response (if ready_status readiness = ''READY'' then 200 else 503) readiness))
       (\<lambda>msg. Response 503
                \<lparr> ready_status = ''NOT_READY'', ready_message = ''Readiness check failed'',
                  ready_error = Some msg, ready_timestamp = clock p \<rparr>)"

text \<open>\<open>app.get("/alive", ...)\<close>\<close>

definition alive_route :: "process \<Rightarrow> liveness response" where
  "alive_route p = Response 200 (checkLiveness p)"

text \<open>
  \<open>app.get("/health/dashboard", ...)\<close>. \<open>Promise.all\<close> takes the outcome of each of the
  six entries, a rejection (\<open>Inl\<close> with its message) or a value, and rejects as soon as
  one entry does; the handler's \<open>catch\<close> then answers 500.
\<close>

record dashboard_checks =
  dash_basic :: basic_health
  dash_detailed :: detailed_health
  dash_database :: db_check
  dash_readiness :: readiness
  dash_liveness :: liveness
  dash_metrics :: system_metrics

record dashboard =
  overall_status :: string
  dash_error :: "string option"
  dash_timestamp :: string
  dash_checks :: "dashboard_checks option"

definition Promise_all ::
  "string + basic_health \<Rightarrow> string + detailed_health \<Rightarrow> string + db_check \<Rightarrow>
   string + readiness \<Rightarrow> string + liveness \<Rightarrow> string + system_metrics \<Rightarrow>
   string + dashboard_checks" where
  "Promise_all r1 r2 r3 r4 r5 r6 =
     (case r1 of Inl m \<Rightarrow> Inl m | Inr basicHealth \<Rightarrow>
     (case r2 of Inl m \<Rightarrow> Inl m | Inr detailedHealth \<Rightarrow>
     (case r3 of Inl m \<Rightarrow> Inl m | Inr dbCheck \<Rightarrow>
     (case r4 of Inl m \<Rightarrow> Inl m | Inr readiness \<Rightarrow>
     (case r5 of Inl m \<Rightarrow> Inl m | Inr liveness \<Rightarrow>
     (case r6 of Inl m \<Rightarrow> Inl m | Inr metrics \<Rightarrow>
        Inr \<lparr> dash_basic = basicHealth, dash_detailed = detailedHealth,
              dash_database = dbCheck, dash_readiness = readiness,
              dash_liveness = liveness, dash_metrics = metrics \<rparr>))))))"

text \<open>
  \<open>checkDatabase\<close> and \<open>checkReadiness\<close> catch what is thrown in them. The four other
  functions have no \<open>try\<close> of their own, so an exception raised in one of them leaves
  it: \<open>call\<close> is a call of such a function, with the message of the exception raised
  in it, if one is, and \<open>faults\<close> says it for each of the four calls the handler makes.
\<close>

definition call :: "string option \<Rightarrow> 'a \<Rightarrow> string + 'a" where
  "call fault v = (case fault of Some msg \<Rightarrow> Inl msg | None \<Rightarrow> Inr v)"

record faults =
  fault_basic :: "string option"
  fault_detailed :: "string option"
  fault_liveness :: "string option"
  fault_metrics :: "string option"

text \<open>
  The handler builds the array entry by entry. \<open>getBasicHealth\<close>, \<open>checkLiveness\<close> and
  \<open>getSystemMetrics\<close> run at once, and an exception in one of them goes straight to the
  handler's \<open>catch\<close>; the three others give promises, which \<open>Promise.all\<close> awaits. The
  three checks that reach the store each make their own round trip, so each gets its
  own view of the connection.
\<close>

definition health_dashboard ::
  "health_state \<Rightarrow> connection \<Rightarrow> connection \<Rightarrow> connection \<Rightarrow> process \<Rightarrow> faults
     \<Rightarrow> dashboard response" where
  "health_dashboard h c_detailed c_database c_readiness p x =
     try_catch
       (case call (fault_basic x) (getBasicHealth p) of
          Inl m \<Rightarrow> Inl m
        | Inr basicHealth \<Rightarrow>
            (let detailedHealth = call (fault_detailed x) (getDetailedHealth h c_detailed p);
                 dbCheck = Inr (checkDatabase c_database);
                 readiness = Inr (checkReadiness c_readiness p)
             in case call (fault_liveness x) (checkLiveness p) of
                  Inl m \<Rightarrow> Inl m
                | Inr liveness \<Rightarrow>
                    (case call (fault_metrics x) (getSystemMetrics h p) of
                       Inl m \<Rightarrow> Inl m
                     | Inr metrics \<Rightarrow>
                         (case Promise_all (Inr basicHealth) detailedHealth dbCheck readiness
                                 (Inr liveness) (Inr metrics) of
                            Inl m \<Rightarrow> Inl m
                          | Inr cs \<Rightarrow>
                              Inr (Response 200
                                    \<lparr> overall_status = detailed_status (dash_detailed cs),
                                      dash_error = None, dash_timestamp = clock p,
                                      dash_checks = Some cs \<rparr>)))))
       (\<lambda>msg. Response 500
                \<lparr> overall_status = ''ERROR'', dash_error = Some msg, dash_timestamp = clock p,
                  dash_checks = None \<rparr>)"

section \<open>Store invariant, comparison of e-mails, sample data\<close>

text \<open>
  What every collection built through the routes satisfies: the ids are pairwise
  different, and each stored e-mail is non-empty and is its own image under the setters
  (lower case, no surrounding white space).
\<close>

definition store_ok :: "store \<Rightarrow> bool" where
  "store_ok db =
     (distinct (map uid db)
      \<and> list_all (\<lambda>u. email u \<noteq> [] \<and> cast_email (email u) = email u) db)"

text \<open>Two e-mails are the same when they are equal after trimming and lower-casing.\<close>

definition same_email :: "string \<Rightarrow> string \<Rightarrow> bool" where
  "same_email a b = (cast_email a = cast_email b)"


text \<open>
  The error the dashboard's \<open>catch\<close> receives: that of the first of the three direct
  calls to throw, and otherwise the rejection of the detailed check, if it rejects.
\<close>

definition first_failure :: "faults \<Rightarrow> string option" where
  "first_failure x =
     (case fault_basic x of
        Some m \<Rightarrow> Some m
      | None \<Rightarrow>
          (case fault_liveness x of
             Some m \<Rightarrow> Some m
           | None \<Rightarrow>
               (case fault_metrics x of Some m \<Rightarrow> Some m | None \<Rightarrow> fault_detailed x)))"

text \<open>Sample data for the worked instances: a stored user, two bodies, five users.\<close>

definition jo :: user where
  "jo = \<lparr> uid = ''64b7f0c2a1d3e4f5a6b7c8d9'', name = ''Jo Ann'', email = ''jo@x.com'',
          age = None, city = None, phone = None, createdAt = 1000, updatedAt = 1000 \<rparr>"

definition jo_body :: body where
  "jo_body = \<lparr> body_name = Some ''Jo Ann'', body_email = Some ''jo@x.com'', body_age = None,
               body_city = None, body_phone = None \<rparr>"

definition ann_body :: body where
  "ann_body = \<lparr> body_name = Some '' Ann Lee '', body_email = Some ''Ann@Y.org'',
                body_age = Some 30, body_city = None, body_phone = Some ''+1 (555) 010-9999'' \<rparr>"

definition ann_id :: objectid where
  "ann_id = ''64b7f0c2a1d3e4f5a6b7c8da''"








text \<open>
  A process, a run of the handler in which nothing throws, and three states of the
  connection: up, gone, and up with a failing ping.
\<close>

definition node :: process where
  "node = \<lparr> clock = ''2024-01-01T00:10:00.000Z'', uptime = 600, npm_package_version = None,
            NODE_ENV = Some ''production'', PORT = None, node_version = ''v18.19.0'',
            platform = ''linux'', arch = ''x64'', pid = 17, rss = 52428800,
            heapTotal = 20971520, heapUsed = 10485760, external = 1048576,
            cpu_user = 120000, cpu_system = 30000 \<rparr>"

definition no_faults :: faults where
  "no_faults = \<lparr> fault_basic = None, fault_detailed = None, fault_liveness = None,
                 fault_metrics = None \<rparr>"

text \<open>Requests without a body, hence with nothing for the body parsers to reject.\<close>

definition req :: "string \<Rightarrow> string \<Rightarrow> request" where
  "req m p = \<lparr> req_method = m, req_path = p, req_body_error = None \<rparr>"

definition connected :: connection where
  "connected = \<lparr> readyState = 1, conn_name = ''mernapp'', conn_host = ''localhost'',
                 conn_port = 27017, ping = Inr 2 \<rparr>"

definition disconnected :: connection where
  "disconnected = \<lparr> readyState = 0, conn_name = ''mernapp'', conn_host = ''localhost'',
                    conn_port = 27017, ping = Inl ''connection closed'' \<rparr>"

definition unreachable :: connection where
  "unreachable = \<lparr> readyState = 1, conn_name = ''mernapp'', conn_host = ''localhost'',
                   conn_port = 27017, ping = Inl ''connection timed out'' \<rparr>"

section \<open>Facts about strings and the store\<close>

lemmas string_defs =
  toLowerCase_def to_lower_char_def upper_letters_def lower_letters_def digits_def
  upper_accented_def lower_accented_def trim_def is_space_def cast_email_def

lemmas pattern_defs =
  rx_test_def email_pattern_def phone_pattern_def Plus_def Opt_def Lit_def word_char_def

lemmas validate_defs =
  validate_def validate_update_def validate_name_def validate_email_def validate_age_def
  validate_city_def validate_phone_def cast_body_def

lemmas parse_defs =
  read_int_def read_unsigned_def read_digits_def digit_of_def

lemma to_lower_char_idem: "to_lower_char (to_lower_char c) = to_lower_char c"
  by (simp add: to_lower_char_def upper_letters_def lower_letters_def upper_accented_def
        lower_accented_def)

lemma is_space_to_lower_char: "is_space (to_lower_char c) = is_space c"
  by (simp add: to_lower_char_def upper_letters_def lower_letters_def upper_accented_def
        lower_accented_def is_space_def)

lemma toLowerCase_idem: "toLowerCase (toLowerCase s) = toLowerCase s"
  by (simp add: toLowerCase_def to_lower_char_idem)

lemma toLowerCase_trim: "toLowerCase (trim s) = trim (toLowerCase s)"
  by (simp add: toLowerCase_def trim_def dropWhile_map rev_map comp_def is_space_to_lower_char)

lemma trim_idem: "trim (trim s) = trim s"
proof -
  define t where "t = dropWhile is_space s"
  define r where "r = dropWhile is_space (rev t)"
  have t: "t = [] \<or> \<not> is_space (hd t)"
    unfolding t_def using hd_dropWhile[of is_space s] by blast
  have "\<exists>ys. rev t = ys @ r"
    unfolding r_def by (metis takeWhile_dropWhile_id)
  then obtain ys where "rev t = ys @ r" ..
  then have pre: "t = rev r @ rev ys"
    by (metis rev_append rev_rev_ident)
  have "rev r = [] \<or> \<not> is_space (hd (rev r))"
    using t pre by (cases "rev r") auto
  then have "dropWhile is_space (rev r) = rev r"
    by (simp add: dropWhile_eq_self_iff)
  moreover have "dropWhile is_space r = r"
    unfolding r_def by simp
  ultimately show ?thesis
    by (simp add: trim_def t_def[symmetric] r_def[symmetric])
qed

lemma cast_email_idem: "cast_email (cast_email e) = cast_email e"
  by (simp add: cast_email_def toLowerCase_trim toLowerCase_idem trim_idem)

text \<open>E-mails that are equal up to letter case are the same e-mail.\<close>

lemma same_email_if_equal_ignoring_case:
  "toLowerCase a = toLowerCase b \<Longrightarrow> same_email a b"
  by (simp add: same_email_def cast_email_def)

lemma validate_name_ok: "validate_name v = [] \<Longrightarrow> \<exists>n. v = Some n \<and> n \<noteq> []"
  by (auto simp: validate_name_def split: option.splits if_splits)

lemma validate_email_ok: "validate_email v = [] \<Longrightarrow> \<exists>e. v = Some e \<and> e \<noteq> []"
  by (auto simp: validate_email_def split: option.splits if_splits)

lemma store_ok_email:
  "store_ok db \<Longrightarrow> u \<in> set db \<Longrightarrow> cast_email (email u) = email u \<and> email u \<noteq> []"
  by (auto simp: store_ok_def list_all_iff)

lemma find_email_None:
  "store_ok db \<Longrightarrow> \<forall>u\<in>set db. \<not> same_email e (email u) \<Longrightarrow>
   find (\<lambda>u. email u = cast_email e) db = None"
  unfolding find_None_iff same_email_def by (metis store_ok_email)

lemma find_email_Some:
  "store_ok db \<Longrightarrow> u \<in> set db \<Longrightarrow> same_email e (email u) \<Longrightarrow>
   find (\<lambda>u. email u = cast_email e) db \<noteq> None"
  unfolding find_None_iff same_email_def by (metis store_ok_email)

lemma store_ok_jo: "store_ok [jo]"
  by (simp add: store_ok_def jo_def string_defs)

lemma index_of_None: "index_of P xs = None \<longleftrightarrow> (\<forall>x\<in>set xs. \<not> P x)"
  by (induction xs) auto

lemma index_of_Some:
  "index_of P xs = Some k \<Longrightarrow> k < length xs \<and> P (xs ! k) \<and> (\<forall>j<k. \<not> P (xs ! j))"
proof (induction xs arbitrary: k)
  case Nil
  then show ?case by simp
next
  case (Cons x xs)
  show ?case
  proof (cases "P x")
    case True
    with Cons.prems show ?thesis by simp
  next
    case False
    with Cons.prems obtain k' where k': "index_of P xs = Some k'" "k = Suc k'"
      by auto
    from Cons.IH[OF k'(1)] False k'(2) show ?thesis
      by (auto simp: nth_Cons split: nat.splits)
  qed
qed

lemma distinct_uid_eq:
  "distinct (map uid db) \<Longrightarrow> u \<in> set db \<Longrightarrow> v \<in> set db \<Longrightarrow> uid u = uid v \<Longrightarrow> u = v"
  by (meson distinct_map inj_onD)

lemma remove_nth_set:
  assumes "distinct xs" "k < length xs"
  shows "set (take k xs @ drop (Suc k) xs) = set xs - {xs ! k}"
proof -
  have "xs = take k xs @ xs ! k # drop (Suc k) xs"
    using assms(2) by (simp add: id_take_nth_drop)
  then have "distinct (take k xs @ xs ! k # drop (Suc k) xs)" 
    and "set xs = set (take k xs @ xs ! k # drop (Suc k) xs)"
    using assms(1) by simp_all
  then show ?thesis by auto
qed

lemma put_user_success:
  assumes "put_user db now idp b = (Response 200 (Message m u'), db')"
  shows "\<exists>i k. castObjectId idp = Some i \<and> index_of (\<lambda>u. uid u = i) db = Some k
           \<and> validate_update (cast_body b) = []
           \<and> u' = apply_update (cast_body b) now (db ! k) \<and> db' = db[k := u']"
proof -
  from assms have "findByIdAndUpdate db now idp b = Inr (Some u', db')"
    by (auto simp: put_user_def split: option.splits sum.splits if_splits)
  then show ?thesis
    by (auto simp: findByIdAndUpdate_def Let_def split: option.splits if_splits)
qed

text \<open>
  The invariant holds of the empty collection and every route keeps it, so it holds of
  every collection the routes can build.
\<close>

lemma store_ok_Nil: "store_ok []"
  by (simp add: store_ok_def)

lemma store_ok_post_users:
  assumes "store_ok db"
  shows "store_ok (snd (post_users db newid now b))"
proof (cases "\<exists>u. save db newid now b = Inr (u, db @ [u])")
  case True
  then obtain u where s: "save db newid now b = Inr (u, db @ [u])" by blast
  then have v: "validate (cast_body b) = []"
    and fresh: "\<not> list_ex (\<lambda>v. uid v = newid) db" and u: "uid u = newid"
    and em: "body_email (cast_body b) = Some (email u)"
    by (auto simp: save_def Let_def split: list.splits option.splits if_splits)
  from v have "validate_email (body_email (cast_body b)) = []"
    by (simp add: validate_def)
  then have ne: "email u \<noteq> []" using em validate_email_ok by fastforce
  from em have "\<exists>e. email u = cast_email e"
    by (auto simp: cast_body_def intro: sym)
  then have "cast_email (email u) = email u" by (auto simp: cast_email_idem)
  then have "store_ok (db @ [u])"
    using assms fresh u ne by (auto simp: store_ok_def list_ex_iff)
  then show ?thesis
    using assms s by (auto simp: post_users_def split: option.splits)
next
  case False
  then have "snd (post_users db newid now b) = db"
    by (auto simp: post_users_def save_def Let_def split: option.splits sum.splits list.splits if_splits)
  then show ?thesis using assms by simp
qed

lemma store_ok_delete_user:
  assumes "store_ok db"
  shows "store_ok (snd (delete_user db idp))"
proof -
  have "store_ok (take k db @ drop (Suc k) db)" for k
  proof -
    have d: "distinct (map uid db)"
      using assms by (simp add: store_ok_def)
    have "distinct (take k (map uid db) @ drop (Suc k) (map uid db))"
      using d set_take_disj_set_drop_if_distinct[OF d, of k "Suc k"] by simp
    then have "distinct (map uid (take k db @ drop (Suc k) db))"
      by (simp add: take_map drop_map)
    moreover have "set (take k db @ drop (Suc k) db) \<subseteq> set db"
      by (auto dest: in_set_takeD in_set_dropD)
    ultimately show ?thesis
      using assms by (auto simp: store_ok_def list_all_iff)
  qed
  then show ?thesis
    using assms
    by (auto simp: delete_user_def findByIdAndDelete_def split: option.splits)
qed

lemma store_ok_put_user:
  assumes "store_ok db"
  shows "store_ok (snd (put_user db now idp b))"
proof (cases "\<exists>u. fst (put_user db now idp b) = Response 200 (Message ''User updated successfully'' u)")
  case True
  then obtain u db' where p: "put_user db now idp b = (Response 200 (Message ''User updated successfully'' u), db')"
    by (cases "put_user db now idp b") auto
  from put_user_success[OF p] obtain i k' where v: "validate_update (cast_body b) = []"
    and i: "castObjectId idp = Some i" and k': "index_of (\<lambda>u. uid u = i) db = Some k'"
    and u: "u = apply_update (cast_body b) now (db ! k')" and db': "db' = db[k' := u]"
    by blast
  define k where "k = k'"
  have k: "k < length db" "uid u = uid (db ! k)" "db' = db[k := u]"
    using index_of_Some[OF k'] u db' by (simp_all add: k_def apply_update_def)
  have old: "db ! k' \<in> set db" using index_of_Some[OF k'] by simp
  have em: "email u \<noteq> [] \<and> cast_email (email u) = email u"
  proof (cases "body_email b")
    case None
    then have "email u = email (db ! k')"
      using u by (simp add: apply_update_def cast_body_def)
    then show ?thesis using store_ok_email[OF assms old] by simp
  next
    case (Some e)
    then have eu: "email u = cast_email e"
      using u by (simp add: apply_update_def cast_body_def)
    have "validate_email (Some (cast_email e)) = []"
      using v Some by (simp add: validate_update_def cast_body_def)
    then have "cast_email e \<noteq> []" using validate_email_ok by fastforce
    then show ?thesis using eu by (simp add: cast_email_idem)
  qed
  have "map uid (db[k := u]) = (map uid db)[k := map uid db ! k]"
    using k by (simp add: map_update)
  then have "map uid (db[k := u]) = map uid db"
    by (simp only: list_update_id)
  moreover have "set (db[k := u]) \<subseteq> insert u (set db)"
    by (rule set_update_subset_insert)
  ultimately have "store_ok (db[k := u])"
    using assms em by (auto simp: store_ok_def list_all_iff)
  then show ?thesis using p k by simp
next
  case False
  then have "snd (put_user db now idp b) = db"
    by (auto simp: put_user_def findByIdAndUpdate_def Let_def split: option.splits sum.splits if_splits)
  then show ?thesis using assms by simp
qed

section \<open>Facts about doubles\<close>

lemma round_half_even_error: "\<bar>of_int (round_half_even q) - q\<bar> \<le> 1 / 2"
  unfolding round_half_even_def Let_def
  by (auto simp: abs_if) linarith+

lemma round_half_even_int: "round_half_even (of_int n) = n"
  by (simp add: round_half_even_def)

lemma exponent_bounds:
  assumes "0 < a"
  shows "2 powi exponent a \<le> a \<and> a < 2 powi (exponent a + 1)"
proof (cases "1 \<le> a")
  case True
  define n where "n = \<lfloor>a\<rfloor>"
  have n: "0 < n" using True by (simp add: n_def)
  from bitlen_bounds[OF n] have b: "2 ^ nat (bitlen n - 1) \<le> n" "n < 2 ^ nat (bitlen n)"
    by auto
  have bl: "1 \<le> bitlen n" using n by (simp add: bitlen_alt_def)
  have e: "exponent a = bitlen n - 1" using True by (simp add: exponent_def n_def)
  have "(2::rat) ^ nat (bitlen n - 1) \<le> of_int n"
    using b(1) by (metis of_int_le_iff of_int_numeral of_int_power)
  also have "\<dots> \<le> a" by (simp add: n_def)
  finally have lo: "2 powi exponent a \<le> a"
    using bl by (simp add: e power_int_def)
  have "n + 1 \<le> 2 ^ nat (bitlen n)" using b(2) by simp
  then have "of_int (n + 1) \<le> (2::rat) ^ nat (bitlen n)"
    by (metis of_int_le_iff of_int_numeral of_int_power)
  moreover have "a < of_int (n + 1)" unfolding n_def by linarith
  ultimately have "a < 2 powi (exponent a + 1)"
    using bl by (simp add: e power_int_def)
  with lo show ?thesis ..
next
  case False
  define b where "b = 1 / a"
  define m where "m = \<lceil>b\<rceil> - 1"
  have b1: "1 < b" using False assms by (simp add: b_def)
  then have m: "0 < m" unfolding m_def by linarith
  from bitlen_bounds[OF m] have bb: "2 ^ nat (bitlen m - 1) \<le> m" "m < 2 ^ nat (bitlen m)"
    by auto
  have bl: "1 \<le> bitlen m" using m by (simp add: bitlen_alt_def)
  have e: "exponent a = - bitlen m" using False by (simp add: exponent_def m_def b_def)
  have "m + 1 \<le> 2 ^ nat (bitlen m)" using bb(2) by simp
  then have "of_int (m + 1) \<le> (2::rat) ^ nat (bitlen m)"
    by (metis of_int_le_iff of_int_numeral of_int_power)
  moreover have "b \<le> of_int (m + 1)" unfolding m_def by linarith
  ultimately have "b \<le> 2 ^ nat (bitlen m)" by simp
  then have "1 / 2 ^ nat (bitlen m) \<le> a"
    using assms by (simp add: b_def field_simps)
  then have lo: "2 powi exponent a \<le> a"
    using bl by (simp add: e power_int_def field_simps)
  have "(2::rat) ^ nat (bitlen m - 1) \<le> of_int m"
    using bb(1) by (metis of_int_le_iff of_int_numeral of_int_power)
  also have "of_int m < b" unfolding m_def by linarith
  finally have "2 ^ nat (bitlen m - 1) < b" .
  then have "a < 1 / 2 ^ nat (bitlen m - 1)"
    using assms by (simp add: b_def field_simps)
  moreover have "2 powi (exponent a + 1) = (1::rat) / 2 ^ nat (bitlen m - 1)"
    using bl by (auto simp: e power_int_def field_simps nat_diff_distrib)
  ultimately show ?thesis using lo by simp
qed

text \<open>
  In the range of the normal doubles, \<open>fl\<close> gives a finite number within half a unit
  in the last of its 53 bits, and the value itself when that many bits hold it.
\<close>

lemma fl_normal:
  assumes lo: "2 powi (- 1022) \<le> x" and hi: "x \<le> 2 ^ 1023"
  shows "fl x = Num (of_int (round_half_even (x / 2 powi (exponent x - 52)))
                       * 2 powi (exponent x - 52))
       \<and> \<bar>of_int (round_half_even (x / 2 powi (exponent x - 52))) * 2 powi (exponent x - 52) - x\<bar>
           \<le> x / 2 ^ 53"
proof -
  define e where "e = exponent x"
  define u :: rat where "u = 2 powi (e - 52)"
  define r where "r = of_int (round_half_even (x / u)) * u"
  have "(0::rat) < 2 powi (- 1022)" by (rule zero_less_power_int) simp
  then have x: "0 < x" using lo by simp
  from exponent_bounds[OF x] have b: "2 powi e \<le> x" "x < 2 powi (e + 1)"
    by (simp_all add: e_def)
  have "(2::rat) powi (- 1022) < 2 powi (e + 1)" using lo b(2) by simp
  then have "- 1022 < e + 1"
    by (smt (verit) power_int_increasing one_le_numeral not_less)
  then have e: "max e (- 1022) = e" by simp
  have u: "0 < u" unfolding u_def by (rule zero_less_power_int) simp
  have "\<bar>of_int (round_half_even (x / u)) - x / u\<bar> * u \<le> 1 / 2 * u"
    using round_half_even_error[of "x / u"] u by (intro mult_right_mono) simp_all
  moreover have "(of_int (round_half_even (x / u)) - x / u) * u = r - x"
    using u by (simp add: r_def left_diff_distrib)
  then have "\<bar>of_int (round_half_even (x / u)) - x / u\<bar> * u = \<bar>r - x\<bar>"
    using u by (metis abs_mult abs_of_pos)
  ultimately have half: "\<bar>r - x\<bar> \<le> 1 / 2 * u" by linarith
  have "1 / 2 * u = 2 powi e / 2 ^ 53"
    unfolding u_def by (simp add: power_int_diff)
  with half have "\<bar>r - x\<bar> \<le> 2 powi e / 2 ^ 53" by (simp only:)
  also have "\<dots> \<le> x / 2 ^ 53" using b(1) by (simp add: divide_right_mono)
  finally have err: "\<bar>r - x\<bar> \<le> x / 2 ^ 53" .
  have "r \<le> x + x / 2 ^ 53" using err by linarith
  also have "\<dots> \<le> 2 ^ 1023 + 2 ^ 1023 / 2 ^ 53"
    using hi by (intro add_mono divide_right_mono) simp_all
  also have "\<dots> < 2 ^ 1024" by simp
  finally have fin: "\<not> 2 ^ 1024 \<le> r" by simp
  have "fl x = (if 2 ^ 1024 \<le> r then PosInf else Num r)"
    using x e[unfolded e_def] by (simp add: fl_def Let_def r_def u_def e_def)
  then have "fl x = Num r"
    using fin by (simp only: if_False)
  with err show ?thesis by (simp only: r_def u_def e_def simp_thms)
qed

lemma fl_int_exact:
  assumes "0 \<le> n" "n \<le> 2 ^ 53"
  shows "fl (of_int n) = Num (of_int n)"
proof (cases "n = 0")
  case True
  then show ?thesis by (simp add: fl_def)
next
  case False
  define x :: rat where "x = of_int n"
  define e where "e = exponent x"
  have x1: "1 \<le> x" using assms False by (simp add: x_def)
  then have x: "0 < x" by simp
  have x53: "x \<le> 2 ^ 53"
    using assms(2) unfolding x_def by (metis of_int_le_iff of_int_numeral of_int_power)
  from exponent_bounds[OF x] have b: "2 powi e \<le> x" "x < 2 powi (e + 1)"
    by (simp_all add: e_def)
  have "(2::rat) powi 0 < 2 powi (e + 1)" using x1 b(2) by simp
  then have e0: "0 \<le> e"
    by (smt (verit) power_int_increasing one_le_numeral not_less)
  have "(2::rat) powi e \<le> 2 powi 53" using b(1) x53 by simp
  then have e53: "e \<le> 53"
    by (rule power_int_le_imp_le_exp[rotated]) simp_all
  have "\<exists>k. x / 2 powi (e - 52) = of_int k"
  proof (cases "e \<le> 52")
    case True
    then have "(2::rat) powi (e - 52) = 1 / 2 ^ nat (52 - e)"
      by (simp add: power_int_def power_divide)
    then have "x / 2 powi (e - 52) = of_int (n * 2 ^ nat (52 - e))"
      by (simp add: x_def)
    then show ?thesis ..
  next
    case False
    then have e: "e = 53" using e53 by simp
    then have "x = 2 ^ 53" using b(1) x53 by simp
    then have "x / 2 powi (e - 52) = of_int (2 ^ 52)"
      by (simp add: e)
    then show ?thesis ..
  qed
  then obtain k where k: "x / 2 powi (e - 52) = of_int k" ..
  have u: "(2::rat) powi (e - 52) \<noteq> 0" by simp
  have "(2::rat) powi (- 1022) \<le> 2 powi 0"
    by (rule power_int_increasing) simp_all
  then have lo: "2 powi (- 1022) \<le> x" using x1 by simp
  have "(2::rat) ^ 53 \<le> 2 ^ 1023" by simp
  then have hi: "x \<le> 2 ^ 1023" using x53 by simp
  have "of_int (round_half_even (x / 2 powi (e - 52))) * 2 powi (e - 52) = x"
    unfolding k round_half_even_int using k u by (simp add: field_simps)
  then show ?thesis
    using fl_normal[OF lo hi, THEN conjunct1] by (simp add: e_def x_def)
qed

lemma fl_nat_exact: "int n \<le> 2 ^ 53 \<Longrightarrow> fl (of_nat n) = Num (of_nat n)"
  using fl_int_exact[of "int n"] by simp


lemma fl_minus: "fl x = Num r \<Longrightarrow> fl (- x) = Num (- r)"
  by (cases "0 < x"; cases "x = 0") (auto simp: fl_def Let_def split: if_splits)

lemma fl_int_exact_abs:
  assumes "\<bar>n\<bar> \<le> 2 ^ 53"
  shows "fl (of_int n) = Num (of_int n)"
proof (cases "0 \<le> n")
  case True
  then show ?thesis using assms by (intro fl_int_exact) simp_all
next
  case False
  then have "fl (of_int (- n)) = Num (of_int (- n))"
    using assms by (intro fl_int_exact) simp_all
  from fl_minus[OF this] show ?thesis by simp
qed

text \<open>Whole numbers up to \<open>2^53\<close>, as \<open>simp\<close> meets them.\<close>

lemma fl_0: "fl 0 = Num 0"
  by (simp add: fl_def)

lemma fl_1: "fl 1 = Num 1"
  using fl_int_exact_abs[of 1] by simp

lemma fl_neg_1: "fl (- 1) = Num (- 1)"
  using fl_int_exact_abs[of "- 1"] by simp

lemma fl_numeral: "(numeral k :: int) \<le> 2 ^ 53 \<Longrightarrow> fl (numeral k) = Num (numeral k)"
  using fl_int_exact_abs[of "numeral k"] by simp

lemma fl_neg_numeral:
  "(numeral k :: int) \<le> 2 ^ 53 \<Longrightarrow> fl (- numeral k) = Num (- numeral k)"
  using fl_int_exact_abs[of "- numeral k"] by simp

lemmas fl_whole = fl_0 fl_1 fl_neg_1 fl_numeral fl_neg_numeral


lemma parseInt_NaN: "read_int x = None \<Longrightarrow> parseInt x = NaN"
  by (simp add: parseInt_def)

section \<open>Facts about the order of a query and its pages\<close>












section \<open>Facts about patterns\<close>





section \<open>Facts about the counter\<close>

lemma serve_count:
  "healthCheckCount (serve r h) =
     healthCheckCount h
       + (if reaches_counter (snd r) \<and> mount_matches ''/health'' (req_path (snd r))
          then 1 else 0)"
  by (simp add: serve_def reaches_counter_def health_counter_middleware_def
        incrementHealthCheckCount_def)

lemma serve_all_count:
  "healthCheckCount (serve_all h rs) =
     healthCheckCount h
       + length (filter (\<lambda>r. reaches_counter (snd r)
                             \<and> mount_matches ''/health'' (req_path (snd r))) rs)"
proof (induction rs arbitrary: h)
  case Nil
  then show ?case by (simp add: serve_all_def)
next
  case (Cons r rs)
  have "serve_all h (r # rs) = serve_all (serve r h) rs"
    by (simp add: serve_all_def)
  then show ?case
    using Cons.IH[of "serve r h"] by (simp add: serve_count)
qed

lemma basic_health_request_counted:
  "basic_health_request (snd r) \<Longrightarrow>
   reaches_counter (snd r) \<and> mount_matches ''/health'' (req_path (snd r))"
proof -
  have "\<not> cors_answers q" if "req_method q = ''GET'' \<or> req_method q = ''HEAD''" for q
    using that by (auto simp: cors_answers_def toLowerCase_def)
  then show "basic_health_request (snd r) \<Longrightarrow>
      reaches_counter (snd r) \<and> mount_matches ''/health'' (req_path (snd r))"
    by (auto simp: basic_health_request_def reaches_counter_def route_matches_def
          mount_matches_def)
qed

lemma length_filter_mono:
  "(\<And>x. P x \<Longrightarrow> Q x) \<Longrightarrow> length (filter P xs) \<le> length (filter Q xs)"
  by (induction xs) auto

section \<open>Readiness and liveness\<close>

text \<open>
  Claim C3. \<open>checkReadiness\<close> reports \<open>READY\<close> exactly when the connection state is 1
  (connected) and the ping resolves, and \<open>NOT_READY\<close> in every other case; \<open>GET /ready\<close>
  answers 200 in the first case and 503 otherwise, with that report as its body.
  \<open>checkLiveness\<close> reports \<open>ALIVE\<close> and \<open>GET /alive\<close> answers 200 whatever the connection
  is: neither takes the connection as an argument.
\<close>

theorem readiness_iff_connected_and_ping:
  "ready_status (checkReadiness c p) =
     (if readyState c = 1 \<and> (\<exists>t. ping c = Inr t) then ''READY'' else ''NOT_READY'')
   \<and> ready_route c p =
       Response (if readyState c = 1 \<and> (\<exists>t. ping c = Inr t) then 200 else 503)
         (checkReadiness c p)
   \<and> alive_status (checkLiveness p) = ''ALIVE''
   \<and> alive_route p = Response 200 (checkLiveness p)"
  by (cases "ping c")
     (simp_all add: checkReadiness_def ready_route_def try_catch_def checkLiveness_def
        alive_route_def)

text \<open>
  The theorem at work, on the scenario of the specification: with the store gone or its
  ping failing \<open>GET /ready\<close> answers 503 \<open>NOT_READY\<close>, and \<open>GET /alive\<close> answers 200.
\<close>

theorem readiness_witness:
  "ready_route disconnected node =
     Response 503 \<lparr> ready_status = ''NOT_READY'', ready_message = ''Database connection not ready'',
                    ready_error = None, ready_timestamp = ''2024-01-01T00:10:00.000Z'' \<rparr>
   \<and> ready_route unreachable node =
     Response 503 \<lparr> ready_status = ''NOT_READY'', ready_message = ''Application not ready'',
                    ready_error = Some ''connection timed out'',
                    ready_timestamp = ''2024-01-01T00:10:00.000Z'' \<rparr>
   \<and> status (ready_route connected node) = 200
   \<and> ready_status (payload (ready_route connected node)) = ''READY''
   \<and> status (alive_route node) = 200
   \<and> alive_status (payload (alive_route node)) = ''ALIVE''"
  using readiness_iff_connected_and_ping [of disconnected node]
    readiness_iff_connected_and_ping [of unreachable node]
    readiness_iff_connected_and_ping [of connected node]
  by (simp add: disconnected_def unreachable_def connected_def node_def checkReadiness_def
        try_catch_def)

section \<open>Creating a user\<close>

text \<open>
  Claim C1, as the code has it. On a collection that satisfies the invariant, a body
  whose e-mail is the same as that of a stored record (equal after trimming and
  lower-casing, hence in particular equal up to letter case) is answered with 400
  \<open>DuplicateEmail\<close> and the collection is unchanged. A body that passes validation,
  whose e-mail is the same as no stored one, and whose generated id is new, is answered
  with 201 and the saved record: it carries the generated id, both dates are the time
  of the save, the e-mail is stored trimmed and in lower case, and the collection grows
  by exactly that record.
\<close>

theorem post_users_duplicate_or_created:
  assumes ok: "store_ok db" and e: "body_email b = Some e"
  shows "((\<exists>u\<in>set db. same_email e (email u)) \<longrightarrow>
            post_users db newid now b = (Response 400 (Error DuplicateEmail), db))
       \<and> (validate (cast_body b) = [] \<and> (\<forall>u\<in>set db. \<not> same_email e (email u))
            \<and> newid \<notin> uid ` set db \<longrightarrow>
            (\<exists>u. post_users db newid now b
                   = (Response 201 (Message ''User created successfully'' u), db @ [u])
                \<and> uid u = newid \<and> createdAt u = now \<and> updatedAt u = now
                \<and> email u = cast_email e \<and> Some (name u) = map_option trim (body_name b)
                \<and> age u = body_age b \<and> city u = map_option trim (body_city b)
                \<and> phone u = map_option trim (body_phone b)))"
proof (intro conjI impI)
  assume "\<exists>u\<in>set db. same_email e (email u)"
  then obtain u where "u \<in> set db" "same_email e (email u)" by blast
  then have "find (\<lambda>u. email u = cast_email e) db \<noteq> None"
    using ok by (intro find_email_Some)
  then show "post_users db newid now b = (Response 400 (Error DuplicateEmail), db)"
    using e by (auto simp: post_users_def findOne_email_def)
next
  assume h: "validate (cast_body b) = [] \<and> (\<forall>u\<in>set db. \<not> same_email e (email u))
            \<and> newid \<notin> uid ` set db"
  then have none: "find (\<lambda>u. email u = cast_email e) db = None"
    using ok find_email_None by blast
  from h have v: "validate (cast_body b) = []" by simp
  then obtain n where n: "body_name (cast_body b) = Some n"
    using validate_name_ok by (auto simp: validate_def)
  have ce: "body_email (cast_body b) = Some (cast_email e)"
    using e by (simp add: cast_body_def)
  have fresh: "\<not> list_ex (\<lambda>v. uid v = newid) db"
    using h by (auto simp: list_ex_iff)
  have free: "\<not> list_ex (\<lambda>v. email v = cast_email e) db"
    using none by (auto simp: list_ex_iff find_None_iff)
  show "\<exists>u. post_users db newid now b
               = (Response 201 (Message ''User created successfully'' u), db @ [u])
            \<and> uid u = newid \<and> createdAt u = now \<and> updatedAt u = now
            \<and> email u = cast_email e \<and> Some (name u) = map_option trim (body_name b)
            \<and> age u = body_age b \<and> city u = map_option trim (body_city b)
            \<and> phone u = map_option trim (body_phone b)"
    using e none v n ce fresh free
    by (auto simp: post_users_def findOne_email_def save_def Let_def cast_body_def)
qed

text \<open>
  The theorem at work: \<open>Jo@X.COM\<close> against the stored \<open>jo@x.com\<close> is a duplicate, and
  a second user with another e-mail is created.
\<close>

theorem post_users_duplicate_or_created_witness:
  "store_ok [jo]
   \<and> post_users [jo] ann_id 2000 (jo_body \<lparr> body_email := Some ''Jo@X.COM'' \<rparr>)
       = (Response 400 (Error DuplicateEmail), [jo])
   \<and> (\<exists>u. post_users [jo] ann_id 2000 ann_body
             = (Response 201 (Message ''User created successfully'' u), [jo] @ [u])
          \<and> uid u = ann_id \<and> createdAt u = 2000 \<and> updatedAt u = 2000
          \<and> email u = ''ann@y.org'' \<and> name u = ''Ann Lee'')"
proof -
  have dup: "\<exists>u\<in>set [jo]. same_email ''Jo@X.COM'' (email u)"
    by (simp add: same_email_def jo_def string_defs)
  have em: "body_email (jo_body \<lparr> body_email := Some ''Jo@X.COM'' \<rparr>) = Some ''Jo@X.COM''"
    by simp
  have valid: "validate (cast_body ann_body) = []"
    by (simp add: ann_body_def validate_defs string_defs pattern_defs)
  have new: "(\<forall>u\<in>set [jo]. \<not> same_email ''Ann@Y.org'' (email u)) \<and> ann_id \<notin> uid ` set [jo]"
    by (simp add: same_email_def jo_def ann_id_def string_defs)
  have em2: "body_email ann_body = Some ''Ann@Y.org''"
    by (simp add: ann_body_def)
  have c: "cast_email ''Ann@Y.org'' = ''ann@y.org''"
    by (simp add: string_defs)
  have t: "trim '' Ann Lee '' = ''Ann Lee''"
    by (simp add: string_defs)
  show ?thesis
    using post_users_duplicate_or_created [OF store_ok_jo em, of ann_id 2000] dup
      post_users_duplicate_or_created [OF store_ok_jo em2, of ann_id 2000] valid new
    by (auto simp: store_ok_jo c t ann_body_def)
qed

text \<open>
  Claim C1 as stated compares the e-mails up to letter case only, and fails: the body
  below passes validation, its e-mail with a leading blank differs from the stored one
  even when case is ignored, the id is new, and still the answer is 400
  \<open>DuplicateEmail\<close>, because the filter of \<open>findOne\<close> goes through the setters.
  (The insert of the trimmed e-mail would be refused by the unique index in any case.)
\<close>

theorem post_users_padded_email_counterexample:
  "store_ok [jo]
   \<and> validate (cast_body (jo_body \<lparr> body_email := Some '' jo@x.com'' \<rparr>)) = []
   \<and> toLowerCase '' jo@x.com'' \<noteq> toLowerCase (email jo)
   \<and> ann_id \<noteq> uid jo
   \<and> post_users [jo] ann_id 2000 (jo_body \<lparr> body_email := Some '' jo@x.com'' \<rparr>)
       = (Response 400 (Error DuplicateEmail), [jo])"
  using store_ok_jo
  by (simp add: jo_body_def jo_def ann_id_def validate_defs string_defs pattern_defs
        post_users_def findOne_email_def)

section \<open>Updating a user\<close>

text \<open>
  Claim C4, as the code has it. Whenever \<open>PUT /:id\<close> succeeds, the record it returns
  replaces, at the same position, the stored record with that id: its id and its
  \<open>createdAt\<close> are those of the stored record, every other position of the collection
  holds what it held before, and its \<open>updatedAt\<close> is the time of the update. So
  \<open>updatedAt\<close> advances exactly when the clock, at the update, is past the stored value.
\<close>

theorem put_user_frame:
  assumes "put_user db now idp b = (Response 200 (Message m u'), db')"
  shows "\<exists>k<length db. castObjectId idp = Some (uid (db ! k))
           \<and> uid u' = uid (db ! k) \<and> createdAt u' = createdAt (db ! k)
           \<and> updatedAt u' = now
           \<and> (updatedAt (db ! k) < updatedAt u') = (updatedAt (db ! k) < now)
           \<and> db' = db[k := u'] \<and> length db' = length db
           \<and> (\<forall>j<length db. j \<noteq> k \<longrightarrow> db' ! j = db ! j)"
proof -
  from put_user_success[OF assms] obtain i k where i: "castObjectId idp = Some i"
    and k: "index_of (\<lambda>u. uid u = i) db = Some k"
    and u': "u' = apply_update (cast_body b) now (db ! k)" and db': "db' = db[k := u']"
    by blast
  from index_of_Some[OF k] have kl: "k < length db" and ki: "uid (db ! k) = i" by auto
  show ?thesis
    using kl ki i u' db' by (intro exI[of _ k]) (simp add: apply_update_def)
qed

text \<open>The theorem at work: Jo's age is set at time 3000.\<close>

theorem put_user_frame_witness:
  "put_user [jo] 3000 (uid jo) (jo_body \<lparr> body_age := Some 31 \<rparr>)
     = (Response 200 (Message ''User updated successfully''
          (jo \<lparr> age := Some 31, updatedAt := 3000 \<rparr>)), [jo \<lparr> age := Some 31, updatedAt := 3000 \<rparr>])
   \<and> uid (jo \<lparr> age := Some 31, updatedAt := 3000 \<rparr>) = uid jo
   \<and> createdAt (jo \<lparr> age := Some 31, updatedAt := 3000 \<rparr>) = createdAt jo
   \<and> updatedAt jo < updatedAt (jo \<lparr> age := Some 31, updatedAt := 3000 \<rparr>)"
proof -
  have run: "put_user [jo] 3000 (uid jo) (jo_body \<lparr> body_age := Some 31 \<rparr>)
     = (Response 200 (Message ''User updated successfully''
          (jo \<lparr> age := Some 31, updatedAt := 3000 \<rparr>)), [jo \<lparr> age := Some 31, updatedAt := 3000 \<rparr>])"
    by code_simp
  have old: "updatedAt ([jo] ! 0) < 3000"
    by (simp add: jo_def)
  show ?thesis
    using put_user_frame [OF run] old run by auto
qed

text \<open>
  Claim C4 as stated says that an update always advances \<open>updatedAt\<close>, and fails: an
  update in the millisecond of the last write succeeds and leaves \<open>updatedAt\<close> as it
  was, and an update made after the clock has been set back succeeds and moves
  \<open>updatedAt\<close> backwards.
\<close>

theorem put_user_updatedAt_counterexample:
  "put_user [jo] 1000 (uid jo) (jo_body \<lparr> body_age := Some 31 \<rparr>)
     = (Response 200 (Message ''User updated successfully''
          (jo \<lparr> age := Some 31, updatedAt := 1000 \<rparr>)), [jo \<lparr> age := Some 31, updatedAt := 1000 \<rparr>])
   \<and> updatedAt (jo \<lparr> age := Some 31, updatedAt := 1000 \<rparr>) = updatedAt jo
   \<and> put_user [jo] 500 (uid jo) (jo_body \<lparr> body_age := Some 31 \<rparr>)
     = (Response 200 (Message ''User updated successfully''
          (jo \<lparr> age := Some 31, updatedAt := 500 \<rparr>)), [jo \<lparr> age := Some 31, updatedAt := 500 \<rparr>])
   \<and> updatedAt (jo \<lparr> age := Some 31, updatedAt := 500 \<rparr>) < updatedAt jo"
  by code_simp

text \<open>
  Claim C10. The e-mail check of \<open>PUT /:id\<close> comes before the lookup of the id: for a
  well-formed id that no record has and a body whose e-mail is that of a stored record,
  the answer is 400 \<open>DuplicateEmail\<close>, although a lookup of that id finds nothing.
\<close>

theorem put_user_duplicate_before_not_found:
  assumes ok: "store_ok db" and i: "castObjectId idp = Some i"
    and absent: "i \<notin> uid ` set db"
    and e: "body_email b = Some e" and owned: "\<exists>u\<in>set db. email u = e"
  shows "put_user db now idp b = (Response 400 (Error DuplicateEmail), db)
       \<and> findById db idp = Inr None"
proof -
  from owned obtain u where u: "u \<in> set db" "email u = e" by blast
  then have ne: "e \<noteq> []" and c: "cast_email e = e"
    using store_ok_email[OF ok u(1)] by auto
  have "uid u \<noteq> i" using absent u(1) by auto
  then have "find (\<lambda>v. email v = cast_email e \<and> uid v \<noteq> i) db \<noteq> None"
    using u c by (auto simp: find_None_iff)
  then obtain w where "findOne_email_ne db e idp = Inr (Some w)"
    using i by (auto simp: findOne_email_ne_def)
  then have "put_user db now idp b = (Response 400 (Error DuplicateEmail), db)"
    using e ne by (simp add: put_user_def)
  moreover have "findById db idp = Inr None"
    using i absent by (auto simp: findById_def find_None_iff)
  ultimately show ?thesis by simp
qed

text \<open>The theorem at work: Jo's e-mail sent to an id that does not exist.\<close>

theorem put_user_duplicate_before_not_found_witness:
  "put_user [jo] 3000 ann_id jo_body = (Response 400 (Error DuplicateEmail), [jo])
   \<and> findById [jo] ann_id = Inr None"
proof -
  have i: "castObjectId ann_id = Some ann_id"
    by code_simp
  have absent: "ann_id \<notin> uid ` set [jo]"
    by (simp add: ann_id_def jo_def)
  have e: "body_email jo_body = Some ''jo@x.com''"
    by (simp add: jo_body_def)
  have owned: "\<exists>u\<in>set [jo]. email u = ''jo@x.com''"
    by (simp add: jo_def)
  show ?thesis
    using put_user_duplicate_before_not_found [OF store_ok_jo i absent e owned] by simp
qed

section \<open>Deleting a user\<close>

text \<open>
  Claim C5, as the code has it, for an id that is well-formed. If no record has the id,
  \<open>DELETE /:id\<close> answers 404 \<open>NotFound\<close> and the collection is unchanged. If a record
  has it, the answer is 200 with that record, the collection loses exactly that record,
  no record with the id is left, and a second \<open>DELETE\<close> of the id answers 404.
\<close>

theorem delete_user_not_found_or_removed:
  assumes d: "distinct (map uid db)" and i: "castObjectId idp = Some i"
  shows "(i \<notin> uid ` set db \<longrightarrow> delete_user db idp = (Response 404 (Error NotFound), db))
       \<and> (\<forall>u\<in>set db. uid u = i \<longrightarrow>
            (\<exists>db'. delete_user db idp
                     = (Response 200 (Message ''User deleted successfully'' u), db')
                  \<and> set db' = set db - {u} \<and> i \<notin> uid ` set db'
                  \<and> delete_user db' idp = (Response 404 (Error NotFound), db')))"
proof (intro conjI impI ballI)
  assume "i \<notin> uid ` set db"
  then have "index_of (\<lambda>u. uid u = i) db = None"
    by (auto simp: index_of_None)
  then show "delete_user db idp = (Response 404 (Error NotFound), db)"
    using i by (simp add: delete_user_def findByIdAndDelete_def)
next
  fix u assume u: "u \<in> set db" "uid u = i"
  then obtain k where k: "index_of (\<lambda>u. uid u = i) db = Some k"
    by (cases "index_of (\<lambda>u. uid u = i) db") (auto simp: index_of_None)
  from index_of_Some[OF k] have kl: "k < length db" and ki: "uid (db ! k) = i" by auto
  then have uk: "db ! k = u"
    using distinct_uid_eq[OF d _ u(1)] u(2) by simp
  define db' where "db' = take k db @ drop (Suc k) db"
  have del: "delete_user db idp = (Response 200 (Message ''User deleted successfully'' u), db')"
    using i k uk by (simp add: delete_user_def findByIdAndDelete_def db'_def)
  have dd: "distinct db" using d by (simp add: distinct_map)
  have s: "set db' = set db - {u}"
    unfolding db'_def using remove_nth_set[OF dd kl] uk by simp
  have gone: "i \<notin> uid ` set db'"
  proof
    assume "i \<in> uid ` set db'"
    then obtain v where v: "v \<in> set db'" "uid v = i" by auto
    then have "v \<in> set db" "v \<noteq> u" using s by auto
    then show False using distinct_uid_eq[OF d _ u(1)] v(2) u(2) by auto
  qed
  then have "index_of (\<lambda>u. uid u = i) db' = None"
    by (auto simp: index_of_None)
  then have again: "delete_user db' idp = (Response 404 (Error NotFound), db')"
    using i by (simp add: delete_user_def findByIdAndDelete_def)
  show "\<exists>db'. delete_user db idp
                 = (Response 200 (Message ''User deleted successfully'' u), db')
              \<and> set db' = set db - {u} \<and> i \<notin> uid ` set db'
              \<and> delete_user db' idp = (Response 404 (Error NotFound), db')"
    using del s gone again by blast
qed

text \<open>The theorem at work: an unknown id, then Jo's id twice.\<close>

theorem delete_user_not_found_or_removed_witness:
  "delete_user [jo] ann_id = (Response 404 (Error NotFound), [jo])
   \<and> delete_user [jo] (uid jo) = (Response 200 (Message ''User deleted successfully'' jo), [])
   \<and> delete_user [] (uid jo) = (Response 404 (Error NotFound), [])"
proof -
  have d: "distinct (map uid [jo])" by simp
  have i: "castObjectId ann_id = Some ann_id"
    by code_simp
  have j: "castObjectId (uid jo) = Some (uid jo)"
    by code_simp
  have absent: "ann_id \<notin> uid ` set [jo]"
    by (simp add: ann_id_def jo_def)
  have present: "jo \<in> set [jo]" by simp
  show ?thesis
    using delete_user_not_found_or_removed [OF d i] absent
      delete_user_not_found_or_removed [OF d j] present
    by auto
qed

text \<open>
  Claim C5 as stated speaks of every id, and fails for one that is not an ObjectId:
  no record has the id \<open>abc\<close>, and the answer is 500 with the cast error, not 404.
\<close>

theorem delete_user_malformed_id_counterexample:
  "''abc'' \<notin> uid ` set [jo]
   \<and> delete_user [jo] ''abc'' = (Response 500 (Error (CastError ''_id'')), [jo])"
  by (simp add: jo_def delete_user_def findByIdAndDelete_def castObjectId_def)

section \<open>Listing users\<close>




text \<open>
  Claim C7 against the code. An absent, unreadable or zero parameter falls back to its
  default, page 1 and limit 10. A negative one does not: \<open>||\<close> keeps it, the skip
  becomes negative for \<open>page=-1\<close>, which the store refuses and the route answers with
  500, and \<open>limit=-5\<close> reaches the store as it is.
\<close>

theorem list_params_negative_not_clamped:
  "list_params None None = (Num 1, Num 10, Num 0)
   \<and> list_params (Some ''0'') (Some ''0'') = (Num 1, Num 10, Num 0)
   \<and> list_params (Some ''abc'') (Some []) = (Num 1, Num 10, Num 0)
   \<and> list_params (Some ''-1'') None = (Num (- 1), Num 10, Num (- 20))
   \<and> list_params None (Some ''-5'') = (Num 1, Num (- 5), Num 0)
   \<and> get_users ord db (Some ''-1'') None = Response 500 (Error (StoreError ''skip''))"
proof -
  have "read_int None = None" "read_int (Some ''0'') = Some 0"
      "read_int (Some ''abc'') = None" "read_int (Some []) = None"
      "read_int (Some ''-1'') = Some (- 1)" "read_int (Some ''-5'') = Some (- 5)"
    by code_simp+
  then have parse: "parseInt None = NaN" "parseInt (Some ''0'') = Num 0"
      "parseInt (Some ''abc'') = NaN" "parseInt (Some []) = NaN"
      "parseInt (Some ''-1'') = Num (- 1)" "parseInt (Some ''-5'') = Num (- 5)"
    by (simp_all add: parseInt_def fl_whole)
  have params: "list_params None None = (Num 1, Num 10, Num 0)"
      "list_params (Some ''0'') (Some ''0'') = (Num 1, Num 10, Num 0)"
      "list_params (Some ''abc'') (Some []) = (Num 1, Num 10, Num 0)"
      "list_params (Some ''-1'') None = (Num (- 1), Num 10, Num (- 20))"
      "list_params None (Some ''-5'') = (Num 1, Num (- 5), Num 0)"
    by (simp_all add: list_params_def parse or_default_def js_minus_def js_times_def fl_whole)
  have "find_page ord db (Num (- 20)) (Num 10) = Inl (StoreError ''skip'')"
    by (simp add: find_page_def as_long_def)
  then have "get_users ord db (Some ''-1'') None = Response 500 (Error (StoreError ''skip''))"
    by (simp add: get_users_def params)
  with params show ?thesis
    by (simp only: simp_thms)
qed

section \<open>Searching users\<close>




section \<open>The health check counter\<close>

text \<open>
  Claim C8, as the code has it. The counter is zero when the module is loaded. A
  request reaches the counter unless it is an \<open>OPTIONS\<close> request, which \<open>cors()\<close>
  answers, or the body parsers reject its body. A request that reaches it adds one when
  its path is \<open>/health\<close> or lies below \<open>/health/\<close>, whatever the route (basic,
  detailed, database, dashboard) and whatever the method, and no request adds anything
  otherwise. So the counter never decreases, after any run of requests it has grown by
  the number of requests under \<open>/health\<close> that reached it, which is what the detailed
  view shows, and that number is at least the number of basic health checks served.
\<close>

theorem health_counter_counts_requests_under_health:
  "healthCheckCount (initial_health_state t) = 0
   \<and> healthCheckCount (serve r h) =
       healthCheckCount h
         + (if reaches_counter (snd r) \<and> mount_matches ''/health'' (req_path (snd r))
            then 1 else 0)
   \<and> healthCheckCount (serve_all h rs) =
       healthCheckCount h
         + length (filter (\<lambda>r. reaches_counter (snd r)
                               \<and> mount_matches ''/health'' (req_path (snd r))) rs)
   \<and> healthCheckCount h \<le> healthCheckCount (serve_all h rs)
   \<and> detailed_healthCheckCount (getDetailedHealth (serve_all h rs) c p) =
       healthCheckCount (serve_all h rs)
   \<and> length (filter (\<lambda>r. basic_health_request (snd r)) rs)
       \<le> healthCheckCount (serve_all (initial_health_state t) rs)"
proof -
  have "length (filter (\<lambda>r. basic_health_request (snd r)) rs)
          \<le> length (filter (\<lambda>r. reaches_counter (snd r)
                               \<and> mount_matches ''/health'' (req_path (snd r))) rs)"
    by (rule length_filter_mono) (rule basic_health_request_counted)
  then show ?thesis
    by (simp add: serve_all_count serve_count initial_health_state_def getDetailedHealth_def
          Let_def)
qed

text \<open>
  The theorem at work: of seven requests, five are under \<open>/health\<close>, and three of those
  reach the counter; one of the three is a \<open>POST\<close> that no route serves.
\<close>

theorem health_counter_witness:
  "healthCheckCount (serve_all (initial_health_state ''2024-01-01T00:00:00.000Z'')
     [(''2024-01-01T00:00:01.000Z'', req ''GET'' ''/health''),
      (''2024-01-01T00:00:02.000Z'', req ''GET'' ''/ping''),
      (''2024-01-01T00:00:03.000Z'', req ''GET'' ''/health/dashboard''),
      (''2024-01-01T00:00:04.000Z'', req ''GET'' ''/healthz''),
      (''2024-01-01T00:00:05.000Z'', req ''POST'' ''/Health/''),
      (''2024-01-01T00:00:06.000Z'', req ''OPTIONS'' ''/health''),
      (''2024-01-01T00:00:07.000Z'',
       \<lparr> req_method = ''POST'', req_path = ''/health'',
         req_body_error = Some ''Unexpected end of JSON input'' \<rparr>)]) = 3"
proof -
  have "length (filter (\<lambda>r. reaches_counter (snd r)
                            \<and> mount_matches ''/health'' (req_path (snd r)))
     [(''2024-01-01T00:00:01.000Z'', req ''GET'' ''/health''),
      (''2024-01-01T00:00:02.000Z'', req ''GET'' ''/ping''),
      (''2024-01-01T00:00:03.000Z'', req ''GET'' ''/health/dashboard''),
      (''2024-01-01T00:00:04.000Z'', req ''GET'' ''/healthz''),
      (''2024-01-01T00:00:05.000Z'', req ''POST'' ''/Health/''),
      (''2024-01-01T00:00:06.000Z'', req ''OPTIONS'' ''/health''),
      (''2024-01-01T00:00:07.000Z'',
       \<lparr> req_method = ''POST'', req_path = ''/health'',
         req_body_error = Some ''Unexpected end of JSON input'' \<rparr>)]) = 3"
    by code_simp
  then show ?thesis
    using health_counter_counts_requests_under_health
      [of "''2024-01-01T00:00:00.000Z''" _ "initial_health_state ''2024-01-01T00:00:00.000Z''"
       "[(''2024-01-01T00:00:01.000Z'', req ''GET'' ''/health''),
      (''2024-01-01T00:00:02.000Z'', req ''GET'' ''/ping''),
      (''2024-01-01T00:00:03.000Z'', req ''GET'' ''/health/dashboard''),
      (''2024-01-01T00:00:04.000Z'', req ''GET'' ''/healthz''),
      (''2024-01-01T00:00:05.000Z'', req ''POST'' ''/Health/''),
      (''2024-01-01T00:00:06.000Z'', req ''OPTIONS'' ''/health''),
      (''2024-01-01T00:00:07.000Z'',
       \<lparr> req_method = ''POST'', req_path = ''/health'',
         req_body_error = Some ''Unexpected end of JSON input'' \<rparr>)]", THEN conjunct2,
       THEN conjunct2, THEN conjunct1]
    by (simp only: initial_health_state_def health_state.simps add_0)
qed

text \<open>
  Claim C8 as stated fails: one \<open>GET /health/detailed\<close> brings the counter to 1, and
  no basic health check has been served.
\<close>

theorem health_counter_detailed_counterexample:
  "healthCheckCount (serve_all (initial_health_state ''2024-01-01T00:00:00.000Z'')
     [(''2024-01-01T00:00:01.000Z'', req ''GET'' ''/health/detailed'')]) = 1
   \<and> filter (\<lambda>r. basic_health_request (snd r))
     [(''2024-01-01T00:00:01.000Z'', req ''GET'' ''/health/detailed'')] = []"
  by code_simp

section \<open>The dashboard\<close>

text \<open>
  Claim C9, as the code has it. When none of the four functions without a \<open>try\<close> of
  their own throws, \<open>GET /health/dashboard\<close> answers 200 with the results of all six
  checks, each equal to what the check returns on its own, and with the status of the
  detailed check as overall status, whatever the three checks that reach the store
  find. A failure of the store shows in the result of the check that met it: the
  database check and the detailed check report \<open>ERROR\<close> unless the connection is up
  and the ping resolves, and the database and readiness checks carry the message of a
  failed ping in their \<open>error\<close> field. When one of the four functions throws, the
  answer is 500 with overall status \<open>ERROR\<close>, the message of the first failure, and the
  result of no check at all.
\<close>

theorem health_dashboard_all_or_nothing:
  "health_dashboard h c2 c3 c4 p x =
     (case first_failure x of
        Some msg \<Rightarrow>
          Response 500 \<lparr> overall_status = ''ERROR'', dash_error = Some msg,
                         dash_timestamp = clock p, dash_checks = None \<rparr>
      | None \<Rightarrow>
          Response 200
            \<lparr> overall_status = detailed_status (getDetailedHealth h c2 p), dash_error = None,
              dash_timestamp = clock p,
              dash_checks = Some
                \<lparr> dash_basic = getBasicHealth p, dash_detailed = getDetailedHealth h c2 p,
                  dash_database = checkDatabase c3, dash_readiness = checkReadiness c4 p,
                  dash_liveness = checkLiveness p, dash_metrics = getSystemMetrics h p \<rparr> \<rparr>)
   \<and> (first_failure x = None) =
       (fault_basic x = None \<and> fault_detailed x = None \<and> fault_liveness x = None
        \<and> fault_metrics x = None)
   \<and> db_status (checkDatabase c3) =
       (if readyState c3 = 1 \<and> (\<exists>t. ping c3 = Inr t) then ''OK'' else ''ERROR'')
   \<and> db_error (checkDatabase c3) =
       (if readyState c3 = 1 then (case ping c3 of Inl msg \<Rightarrow> Some msg | Inr t \<Rightarrow> None)
        else Some ''Database is not connected'')
   \<and> ready_error (checkReadiness c4 p) =
       (if readyState c4 = 1 then (case ping c4 of Inl msg \<Rightarrow> Some msg | Inr t \<Rightarrow> None)
        else None)
   \<and> check_database (getDetailedHealth h c2 p) = checkDatabase c2
   \<and> detailed_status (getDetailedHealth h c2 p) =
       (if readyState c2 = 1 \<and> (\<exists>t. ping c2 = Inr t) then ''OK'' else ''ERROR'')"
proof -
  have db: "db_status (checkDatabase c) =
       (if readyState c = 1 \<and> (\<exists>t. ping c = Inr t) then ''OK'' else ''ERROR'')" for c
    by (cases "ping c") (simp_all add: checkDatabase_def try_catch_def)
  have dbe: "db_error (checkDatabase c3) =
       (if readyState c3 = 1 then (case ping c3 of Inl msg \<Rightarrow> Some msg | Inr t \<Rightarrow> None)
        else Some ''Database is not connected'')"
    by (cases "ping c3") (simp_all add: checkDatabase_def try_catch_def)
  have re: "ready_error (checkReadiness c4 p) =
       (if readyState c4 = 1 then (case ping c4 of Inl msg \<Rightarrow> Some msg | Inr t \<Rightarrow> None)
        else None)"
    by (cases "ping c4") (simp_all add: checkReadiness_def try_catch_def)
  have det: "check_database (getDetailedHealth h c2 p) = checkDatabase c2"
    by (simp add: getDetailedHealth_def Let_def)
  have dets: "detailed_status (getDetailedHealth h c2 p) =
       (if readyState c2 = 1 \<and> (\<exists>t. ping c2 = Inr t) then ''OK'' else ''ERROR'')"
    using db[of c2] by (simp add: getDetailedHealth_def Let_def)
  have dash: "health_dashboard h c2 c3 c4 p x =
     (case first_failure x of
        Some msg \<Rightarrow>
          Response 500 \<lparr> overall_status = ''ERROR'', dash_error = Some msg,
                         dash_timestamp = clock p, dash_checks = None \<rparr>
      | None \<Rightarrow>
          Response 200
            \<lparr> overall_status = detailed_status (getDetailedHealth h c2 p), dash_error = None,
              dash_timestamp = clock p,
              dash_checks = Some
                \<lparr> dash_basic = getBasicHealth p, dash_detailed = getDetailedHealth h c2 p,
                  dash_database = checkDatabase c3, dash_readiness = checkReadiness c4 p,
                  dash_liveness = checkLiveness p, dash_metrics = getSystemMetrics h p \<rparr> \<rparr>)"
    by (cases "fault_basic x"; cases "fault_detailed x"; cases "fault_liveness x";
        cases "fault_metrics x")
       (simp_all add: health_dashboard_def first_failure_def call_def Promise_all_def
          try_catch_def)
  have none: "(first_failure x = None) =
       (fault_basic x = None \<and> fault_detailed x = None \<and> fault_liveness x = None
        \<and> fault_metrics x = None)"
    by (auto simp: first_failure_def split: option.splits)
  show ?thesis
    using db[of c3] dbe re det dets dash none by (intro conjI)
qed

text \<open>
  The theorem at work: the ping of the database check fails and the readiness check
  finds the connection gone, nothing throws, and the dashboard answers 200 with every
  result; the detailed check rejects, and it answers 500.
\<close>

theorem health_dashboard_witness:
  "status (health_dashboard (initial_health_state ''2024-01-01T00:00:00.000Z'')
            connected unreachable disconnected node no_faults) = 200
   \<and> overall_status (payload (health_dashboard
         (initial_health_state ''2024-01-01T00:00:00.000Z'')
         connected unreachable disconnected node no_faults)) = ''OK''
   \<and> map_option dash_database (dash_checks (payload (health_dashboard
         (initial_health_state ''2024-01-01T00:00:00.000Z'')
         connected unreachable disconnected node no_faults)))
       = Some \<lparr> db_status = ''ERROR'', db_state = None, db_name = None, db_host = None,
                 db_port = None, db_responseTime = None,
                 db_error = Some ''connection timed out'' \<rparr>
   \<and> map_option (ready_status \<circ> dash_readiness) (dash_checks (payload (health_dashboard
         (initial_health_state ''2024-01-01T00:00:00.000Z'')
         connected unreachable disconnected node no_faults))) = Some ''NOT_READY''
   \<and> map_option (alive_status \<circ> dash_liveness) (dash_checks (payload (health_dashboard
         (initial_health_state ''2024-01-01T00:00:00.000Z'')
         connected unreachable disconnected node no_faults))) = Some ''ALIVE''
   \<and> status (health_dashboard (initial_health_state ''2024-01-01T00:00:00.000Z'')
            connected connected connected node
            (no_faults \<lparr> fault_detailed := Some ''boom'' \<rparr>)) = 500"
  using health_dashboard_all_or_nothing
    [of "initial_health_state ''2024-01-01T00:00:00.000Z''" connected unreachable
        disconnected node no_faults, THEN conjunct1]
    health_dashboard_all_or_nothing
    [of "initial_health_state ''2024-01-01T00:00:00.000Z''" connected connected
        connected node "no_faults \<lparr> fault_detailed := Some ''boom'' \<rparr>", THEN conjunct1]
  by (simp add: first_failure_def no_faults_def connected_def unreachable_def
        disconnected_def checkDatabase_def checkReadiness_def checkLiveness_def
        getDetailedHealth_def try_catch_def Let_def)

text \<open>
  Claim C9 as stated fails: the store is up and five checks have nothing to report,
  the call of \<open>getSystemMetrics\<close> throws, and the dashboard answers 500 with the
  message and without the result of any of the other five checks.
\<close>

theorem health_dashboard_throw_counterexample:
  "health_dashboard (initial_health_state ''2024-01-01T00:00:00.000Z'')
       connected connected connected node (no_faults \<lparr> fault_metrics := Some ''boom'' \<rparr>)
     = Response 500 \<lparr> overall_status = ''ERROR'', dash_error = Some ''boom'',
                      dash_timestamp = ''2024-01-01T00:10:00.000Z'', dash_checks = None \<rparr>
   \<and> db_status (checkDatabase connected) = ''OK''
   \<and> ready_status (checkReadiness connected node) = ''READY''
   \<and> alive_status (checkLiveness node) = ''ALIVE''
   \<and> basic_status (getBasicHealth node) = ''OK''"
  by (simp add: health_dashboard_def call_def Promise_all_def try_catch_def no_faults_def
        node_def connected_def checkDatabase_def checkReadiness_def checkLiveness_def
        getBasicHealth_def)

end
